theory Spec2Isabelle
  imports Main "HOL-Library.AList" "HOL-Library.Multiset"
begin

section \<open>Strings\<close>

text \<open>
  A string of the program is a \<^typ>\<open>string\<close>; a character stands for one code unit
  below 256. The helpers below are the string methods and regular expressions that the
  modelled functions use, each written out as a function on character lists.
\<close>

definition digitChars :: string where
  "digitChars = ''0123456789''"

text \<open>
  \<^verbatim>\<open>s.toLowerCase()\<close>: the letters A to Z and the capital letters of the Latin-1
  range (code units 192 to 222, the multiplication sign 215 apart) move up by 32.
\<close>

definition lowerChar :: "char \<Rightarrow> char" where
  "lowerChar c =
     (let n = (of_char c :: nat)
      in if (65 \<le> n \<and> n \<le> 90) \<or> (192 \<le> n \<and> n \<le> 222 \<and> n \<noteq> 215) then char_of (n + 32)
         else c)"

definition toLowerCase :: "string \<Rightarrow> string" where
  "toLowerCase s = map lowerChar s"

text \<open>The character class \<^verbatim>\<open>[a-z0-9]\<close> under the flag \<^verbatim>\<open>i\<close>.\<close>

definition isAlnum :: "char \<Rightarrow> bool" where
  "isAlnum c =
     (let n = (of_char c :: nat)
      in (97 \<le> n \<and> n \<le> 122) \<or> (65 \<le> n \<and> n \<le> 90) \<or> (48 \<le> n \<and> n \<le> 57))"

text \<open>\<^verbatim>\<open>s.startsWith(p)\<close> and \<^verbatim>\<open>s.endsWith(p)\<close>.\<close>

definition startsWith :: "string \<Rightarrow> string \<Rightarrow> bool" where
  "startsWith s p = (take (length p) s = p)"

definition endsWith :: "string \<Rightarrow> string \<Rightarrow> bool" where
  "endsWith s p = (length p \<le> length s \<and> drop (length s - length p) s = p)"

text \<open>\<^verbatim>\<open>s.split('/')\<close>: the pieces between the separators, empty pieces included.\<close>

fun splitOn :: "char \<Rightarrow> string \<Rightarrow> string list" where
  "splitOn d [] = [[]]"
| "splitOn d (c # cs) =
     (if c = d then [] # splitOn d cs
      else (case splitOn d cs of [] \<Rightarrow> [[c]] | p # ps \<Rightarrow> (c # p) # ps))"

text \<open>\<^verbatim>\<open>parts.join('/')\<close>.\<close>

fun joinWith :: "string \<Rightarrow> string list \<Rightarrow> string" where
  "joinWith d [] = []"
| "joinWith d [p] = p"
| "joinWith d (p # q # ps) = p @ d @ joinWith d (q # ps)"

text \<open>\<^verbatim>\<open>pathname.split('/').filter(Boolean)\<close>: the non-empty path segments.\<close>

definition pathSegments :: "string \<Rightarrow> string list" where
  "pathSegments p = filter (\<lambda>s. s \<noteq> []) (splitOn CHR ''/'' p)"

text \<open>\<^verbatim>\<open>s.replace(/\.git$/i, '')\<close>.\<close>

definition stripDotGit :: "string \<Rightarrow> string" where
  "stripDotGit s =
     (if 4 \<le> length s \<and> toLowerCase (drop (length s - 4) s) = ''.git''
      then take (length s - 4) s else s)"

text \<open>
  \<^verbatim>\<open>/\.[a-z0-9]+$/i.test(s)\<close>: the longest run of letters and digits at the end of
  \<open>s\<close> is not empty and a dot stands before it.
\<close>

definition hasFileNameSuffix :: "string \<Rightarrow> bool" where
  "hasFileNameSuffix s =
     (let r = rev s; t = takeWhile isAlnum r
      in t \<noteq> [] \<and> (case dropWhile isAlnum r of [] \<Rightarrow> False | c # _ \<Rightarrow> c = CHR ''.''))"

text \<open>
  A \<^verbatim>\<open>Set<string>\<close> read back with \<^verbatim>\<open>Array.from\<close>: the elements in the order of
  their first insertion.
\<close>

definition setAdd :: "string list \<Rightarrow> string \<Rightarrow> string list" where
  "setAdd cs c = (if c \<in> set cs then cs else cs @ [c])"

section \<open>URL candidate resolver\<close>

text \<open>
  The fields of a parsed \<^verbatim>\<open>URL\<close> object that the resolver reads. The constructor
  \<^verbatim>\<open>new URL(input)\<close> belongs to the platform; the resolver takes it as the parameter
  \<open>parse\<close>, which returns \<open>None\<close> where the constructor throws.
\<close>

record url =
  protocol :: string
  hostname :: string
  pathname :: string
  origin :: string

type_synonym url_parser = "string \<Rightarrow> url option"

text \<open>\<^verbatim>\<open>/^https?:$/i.test(protocol)\<close>.\<close>

definition isHttpProtocol :: "string \<Rightarrow> bool" where
  "isHttpProtocol p = (toLowerCase p = ''http:'' \<or> toLowerCase p = ''https:'')"

definition rawHost :: string where
  "rawHost = ''https://raw.githubusercontent.com/''"

definition candidateMarketplaceUrls :: "url_parser \<Rightarrow> string \<Rightarrow> string list" where
  "candidateMarketplaceUrls parse inputUrl =
     (case parse inputUrl of
        None \<Rightarrow> setAdd [] inputUrl
      | Some parsed \<Rightarrow>
          (let host = toLowerCase (hostname parsed);
               parts = pathSegments (pathname parsed)
           in if \<not> isHttpProtocol (protocol parsed) then setAdd [] inputUrl
              else if (host = ''github.com'' \<or> host = ''www.github.com'') \<and> 2 \<le> length parts then
                (let owner = parts ! 0;
                     repo = stripDotGit (parts ! 1)
                 in if 5 \<le> length parts \<and> parts ! 2 = ''blob'' then
                      (let branch = parts ! 3;
                           remainder = joinWith ''/'' (drop 4 parts)
                       in setAdd [] (rawHost @ owner @ ''/'' @ repo @ ''/'' @ branch @ ''/'' @ remainder))
                    else
                      foldl setAdd []
                        [rawHost @ owner @ ''/'' @ repo @ ''/main/.claude-plugin/marketplace.json'',
                         rawHost @ owner @ ''/'' @ repo @ ''/master/.claude-plugin/marketplace.json'',
                         rawHost @ owner @ ''/'' @ repo @ ''/main/.github/plugin/marketplace.json'',
                         rawHost @ owner @ ''/'' @ repo @ ''/master/.github/plugin/marketplace.json''])
              else
                (let hasFileName = hasFileNameSuffix (pathname parsed);
                     cs = setAdd [] inputUrl
                 in if \<not> hasFileName \<and> \<not> endsWith (pathname parsed) ''/marketplace.json'' then
                      (let pathname' = (if endsWith (pathname parsed) ''/'' then pathname parsed
                                        else pathname parsed @ ''/'')
                       in foldl setAdd cs
                            [origin parsed @ pathname' @ ''.claude-plugin/marketplace.json'',
                             origin parsed @ pathname' @ ''.github/plugin/marketplace.json''])
                    else cs)))"

text \<open>
  A parser for the examples: absolute URLs of the shape
  \<^verbatim>\<open>scheme://host[:port][/path][?query][#fragment]\<close>, whose scheme is made of letters
  and digits. It stands for the platform's constructor on such inputs and returns
  \<open>None\<close> on every other input.
\<close>

definition simpleURL :: url_parser where
  "simpleURL s =
     (let scheme = takeWhile (\<lambda>c. c \<noteq> CHR '':'') s;
          rest = drop (length scheme) s
      in if scheme = [] \<or> \<not> list_all isAlnum scheme \<or> \<not> startsWith rest ''://'' then None
         else
           (let afterSlashes = drop 3 rest;
                authority = takeWhile (\<lambda>c. c \<notin> set ''/?#'') afterSlashes;
                tail = drop (length authority) afterSlashes;
                path = takeWhile (\<lambda>c. c \<notin> set ''?#'') tail;
                host = toLowerCase (takeWhile (\<lambda>c. c \<noteq> CHR '':'') authority)
            in if host = [] then None
               else Some \<lparr>protocol = toLowerCase scheme @ '':'',
                          hostname = host,
                          pathname = (if path = [] then ''/'' else path),
                          origin = toLowerCase scheme @ ''://'' @ toLowerCase authority\<rparr>))"

section \<open>Probing the candidates\<close>

text \<open>
  What one \<^verbatim>\<open>authenticatedFetch(url, { method: 'GET' })\<close> gives: a response with its
  HTTP status, or a thrown error, kept as the text that the program prints for it
  (\<^verbatim>\<open>error.message\<close>, or \<^verbatim>\<open>String(error)\<close>). The network is the parameter
  \<open>fetch\<close>.
\<close>

datatype fetch_outcome = Response nat | Thrown string

type_synonym fetcher = "string \<Rightarrow> fetch_outcome"

text \<open>\<^verbatim>\<open>response.ok\<close>: the status is in the range 200 to 299.\<close>

definition ok :: "nat \<Rightarrow> bool" where
  "ok status = (200 \<le> status \<and> status \<le> 299)"

text \<open>A number inside a template string: its decimal digits.\<close>

fun showNat :: "nat \<Rightarrow> string" where
  "showNat n =
     (if n < 10 then [digitChars ! n] else showNat (n div 10) @ [digitChars ! (n mod 10)])"

declare showNat.simps [simp del]

record diagnostics =
  warnings :: "string list"
  errors :: "string list"

record resolution = diagnostics +
  documentUrl :: "string option"

definition candidateFailed :: "nat \<Rightarrow> string \<Rightarrow> string" where
  "candidateFailed status candidate =
     ''Marketplace candidate failed ('' @ showNat status @ ''): '' @ candidate"

definition candidateUnreachable :: "string \<Rightarrow> string \<Rightarrow> string" where
  "candidateUnreachable candidate message =
     ''Marketplace candidate unreachable: '' @ candidate @ '' ('' @ message @ '')''"

definition couldNotResolve :: "string \<Rightarrow> string" where
  "couldNotResolve inputUrl =
     ''Could not resolve marketplace document from '' @ [CHR 0x27] @ inputUrl @ [CHR 0x27] @ ''.''"

text \<open>
  The loop over the candidates. It carries the warnings pushed so far and the requests
  sent so far, and returns the candidate whose response was ok, if there was one.
\<close>

fun probe :: "fetcher \<Rightarrow> string list \<Rightarrow> string list \<Rightarrow> string list \<Rightarrow>
    string option \<times> string list \<times> string list" where
  "probe fetch [] ws sent = (None, ws, sent)"
| "probe fetch (candidate # rest) ws sent =
     (case fetch candidate of
        Response status \<Rightarrow>
          if ok status then (Some candidate, ws, sent @ [candidate])
          else probe fetch rest (ws @ [candidateFailed status candidate]) (sent @ [candidate])
      | Thrown message \<Rightarrow>
          probe fetch rest (ws @ [candidateUnreachable candidate message]) (sent @ [candidate]))"

text \<open>
  \<open>resolveMarketplaceUrl\<close> returns its structured result and, second, the list of the
  requests it has sent, in the order of sending.
\<close>

definition resolveMarketplaceUrl :: "url_parser \<Rightarrow> fetcher \<Rightarrow> string \<Rightarrow> resolution \<times> string list" where
  "resolveMarketplaceUrl parse fetch inputUrl =
     (let candidates = candidateMarketplaceUrls parse inputUrl
      in case probe fetch candidates [] [] of
           (Some candidate, ws, sent) \<Rightarrow>
             (\<lparr>warnings = [], errors = [], documentUrl = Some candidate\<rparr>, sent)
         | (None, ws, sent) \<Rightarrow>
             (\<lparr>warnings = ws, errors = [couldNotResolve inputUrl], documentUrl = None\<rparr>, sent))"

text \<open>The candidate's probe fails: a response that is not ok, or a thrown error.\<close>

definition probeFails :: "fetcher \<Rightarrow> string \<Rightarrow> bool" where
  "probeFails fetch candidate =
     (case fetch candidate of Response status \<Rightarrow> \<not> ok status | Thrown message \<Rightarrow> True)"

text \<open>The warning that the loop pushes for a candidate whose probe fails.\<close>

definition probeWarning :: "fetcher \<Rightarrow> string \<Rightarrow> string" where
  "probeWarning fetch candidate =
     (case fetch candidate of
        Response status \<Rightarrow> candidateFailed status candidate
      | Thrown message \<Rightarrow> candidateUnreachable candidate message)"

text \<open>A network for the examples: branch main is missing, branch master answers.\<close>

definition masterOnly :: fetcher where
  "masterOnly u =
     (if u = ''https://raw.githubusercontent.com/acme/skills/master/.claude-plugin/marketplace.json''
      then Response 200
      else if u = ''https://raw.githubusercontent.com/acme/skills/main/.claude-plugin/marketplace.json''
      then Response 404
      else Thrown ''fetch failed'')"

text \<open>A network on which every request throws.\<close>

definition unreachable :: fetcher where
  "unreachable u = Thrown ''fetch failed''"

section \<open>Decoded JSON\<close>

text \<open>
  A decoded JSON value. An object is the list of its own properties in the order of
  enumeration; a decoded object has no key twice. The value \<^verbatim>\<open>undefined\<close> of a
  missing property is \<open>None\<close> of \<^typ>\<open>'a option\<close>. The program never reads the
  value of a number.
\<close>

datatype json =
  JNull
| JBool bool
| JNum int
| JStr string
| JArr "json list"
| JObj "(string \<times> json) list"

type_synonym UnknownRecord = "(string \<times> json) list"

text \<open>\<^verbatim>\<open>record[key]\<close>.\<close>

definition getProp :: "UnknownRecord \<Rightarrow> string \<Rightarrow> json option" where
  "getProp record key = map_of record key"

text \<open>\<^verbatim>\<open>a ?? b\<close>.\<close>

definition orElse :: "'a option \<Rightarrow> 'a option \<Rightarrow> 'a option" where
  "orElse a b = (case a of Some x \<Rightarrow> Some x | None \<Rightarrow> b)"

text \<open>\<^verbatim>\<open>a ?? b\<close> where \<open>b\<close> is always defined.\<close>

definition orDefault :: "'a option \<Rightarrow> 'a \<Rightarrow> 'a" where
  "orDefault a b = (case a of Some x \<Rightarrow> x | None \<Rightarrow> b)"

definition asRecord :: "json option \<Rightarrow> UnknownRecord option" where
  "asRecord value = (case value of Some (JObj record) \<Rightarrow> Some record | _ \<Rightarrow> None)"

text \<open>The white space and line terminators below code unit 256, which \<^verbatim>\<open>trim\<close> removes.\<close>

definition isWhiteSpace :: "char \<Rightarrow> bool" where
  "isWhiteSpace c = ((of_char c :: nat) \<in> {9, 10, 11, 12, 13, 32, 160})"

definition trim :: "string \<Rightarrow> string" where
  "trim s = rev (dropWhile isWhiteSpace (rev (dropWhile isWhiteSpace s)))"

definition asString :: "json option \<Rightarrow> string option" where
  "asString value =
     (case value of
        Some (JStr s) \<Rightarrow> (let normalized = trim s in if 0 < length normalized then Some normalized else None)
      | _ \<Rightarrow> None)"

text \<open>\<^verbatim>\<open>value.replace(/^\.\//, '').replace(/^\//, '')\<close>.\<close>

definition normalizeRelativePath :: "string \<Rightarrow> string" where
  "normalizeRelativePath value =
     (let v = (if startsWith value ''./'' then drop 2 value else value)
      in if startsWith v ''/'' then drop 1 v else v)"

text \<open>\<^verbatim>\<open>/^https?:\/\//i.test(value)\<close>.\<close>

definition isHttpUrl :: "string \<Rightarrow> bool" where
  "isHttpUrl value =
     (toLowerCase (take 7 value) = ''http://'' \<or> toLowerCase (take 8 value) = ''https://'')"

text \<open>\<^verbatim>\<open>/\.md$/i.test(value)\<close>.\<close>

definition isMarkdown :: "string \<Rightarrow> bool" where
  "isMarkdown value = (3 \<le> length value \<and> toLowerCase (drop (length value - 3) value) = ''.md'')"

section \<open>Manifest normalizer\<close>

record RepoContext =
  owner :: string
  repo :: string
  branch :: string
  rawBaseUrl :: string
  blobBaseUrl :: string

text \<open>
  The interfaces of the program share the field names \<open>name\<close> and \<open>description\<close>; each
  is declared once, in a record that the others extend.
\<close>

record named =
  name :: string

record described = named +
  description :: "string option"

record MarketplaceGroupItem = described +
  path :: "string option"
  metadataUrl :: "string option"
  metadataFallbackUrls :: "string list"
  docUrl :: "string option"

record MarketplacePluginGroup = named +
  key :: string
  items :: "MarketplaceGroupItem list"

record MarketplacePlugin = described +
  plugin_id :: string
  version :: "string option"
  downloadUrl :: "string option"
  groups :: "MarketplacePluginGroup list"
  sourceUrl :: string
  marketplaceDocumentUrl :: string
  raw :: UnknownRecord

record MarketplaceFetchResult = diagnostics +
  plugins :: "MarketplacePlugin list"

definition summaryFromRecord :: "UnknownRecord \<Rightarrow> string option" where
  "summaryFromRecord record =
     orElse (asString (getProp record ''name''))
       (orElse (asString (getProp record ''id''))
          (orElse (asString (getProp record ''slug'')) (asString (getProp record ''title''))))"

definition descriptorDefaultsForGroup :: "string \<Rightarrow> string list" where
  "descriptorDefaultsForGroup groupKey =
     (if groupKey = ''skills'' then [''SKILL.md'', ''README.md'']
      else if groupKey = ''agents'' then [''AGENT.md'', ''AGENTS.md'', ''README.md'']
      else [''README.md''])"

text \<open>\<^verbatim>\<open>xs[0]\<close>, undefined on the empty array.\<close>

definition first :: "'a list \<Rightarrow> 'a option" where
  "first xs = (case xs of [] \<Rightarrow> None | x # _ \<Rightarrow> Some x)"

definition buildItemFromPath :: "string \<Rightarrow> string \<Rightarrow> RepoContext option \<Rightarrow> MarketplaceGroupItem" where
  "buildItemFromPath pathValue groupKey repoContext =
     (let cleanedPath = normalizeRelativePath pathValue;
          descriptorFiles = descriptorDefaultsForGroup groupKey
      in case repoContext of
           None \<Rightarrow>
             \<lparr>name = cleanedPath, description = None, path = Some cleanedPath,
              metadataUrl = (if isHttpUrl cleanedPath then Some cleanedPath else None),
              metadataFallbackUrls = [],
              docUrl = (if isHttpUrl cleanedPath then Some cleanedPath else None)\<rparr>
         | Some ctx \<Rightarrow>
             if isHttpUrl cleanedPath then
               \<lparr>name = cleanedPath, description = None, path = Some cleanedPath,
                metadataUrl = Some cleanedPath, metadataFallbackUrls = [],
                docUrl = Some cleanedPath\<rparr>
             else if isMarkdown cleanedPath then
               \<lparr>name = cleanedPath, description = None, path = Some cleanedPath,
                metadataUrl = Some (rawBaseUrl ctx @ ''/'' @ cleanedPath),
                metadataFallbackUrls = [],
                docUrl = Some (blobBaseUrl ctx @ ''/'' @ cleanedPath)\<rparr>
             else
               (let metadataCandidates =
                      map (\<lambda>fileName. rawBaseUrl ctx @ ''/'' @ cleanedPath @ ''/'' @ fileName)
                        descriptorFiles;
                    docCandidate = blobBaseUrl ctx @ ''/'' @ cleanedPath @ ''/'' @
                      orDefault (first descriptorFiles) ''undefined''
                in \<lparr>name = cleanedPath, description = None, path = Some cleanedPath,
                    metadataUrl = first metadataCandidates,
                    metadataFallbackUrls = drop 1 metadataCandidates,
                    docUrl = Some docCandidate\<rparr>))"

definition buildGroupItem :: "json \<Rightarrow> string \<Rightarrow> RepoContext option \<Rightarrow> MarketplaceGroupItem option" where
  "buildGroupItem entry groupKey repoContext =
     (case entry of
        JStr s \<Rightarrow> Some (buildItemFromPath s groupKey repoContext)
      | _ \<Rightarrow>
          (case asRecord (Some entry) of
             None \<Rightarrow> None
           | Some record \<Rightarrow>
               (case orElse (asString (getProp record ''path''))
                       (orElse (asString (getProp record ''source'')) (asString (getProp record ''url''))) of
                  Some pathValue \<Rightarrow>
                    (let base = buildItemFromPath pathValue groupKey repoContext
                     in Some (base\<lparr>name := orDefault (summaryFromRecord record) (name base),
                                    description := orElse (asString (getProp record ''description''))
                                                     (description base)\<rparr>))
                | None \<Rightarrow>
                    (case summaryFromRecord record of
                       None \<Rightarrow> None
                     | Some n \<Rightarrow>
                         Some \<lparr>name = n, description = asString (getProp record ''description''),
                               path = None, metadataUrl = None, metadataFallbackUrls = [],
                               docUrl = None\<rparr>))))"

definition toGroupItems :: "json option \<Rightarrow> string \<Rightarrow> RepoContext option \<Rightarrow> MarketplaceGroupItem list" where
  "toGroupItems value groupKey repoContext =
     (case value of
        Some (JArr entries) \<Rightarrow>
          List.map_filter (\<lambda>entry. buildGroupItem entry groupKey repoContext) entries
      | _ \<Rightarrow>
          (case asRecord value of
             None \<Rightarrow> []
           | Some record \<Rightarrow>
               map (\<lambda>(k, entryValue).
                     case buildGroupItem entryValue groupKey repoContext of
                       Some item \<Rightarrow> item
                     | None \<Rightarrow>
                         \<lparr>name = k, description = None, path = None, metadataUrl = None,
                          metadataFallbackUrls = [], docUrl = None\<rparr>)
                 record))"

text \<open>
  The \<^verbatim>\<open>Map\<close> of \<open>mergeGroupItems\<close>, as the list of its entries in insertion order:
  an item is stored under its lower-cased name unless that key is taken.
\<close>

definition mergeGroupItems :: "MarketplaceGroupItem list \<Rightarrow> MarketplaceGroupItem list \<Rightarrow>
    MarketplaceGroupItem list" where
  "mergeGroupItems primary secondary =
     map snd
       (foldl (\<lambda>deduped item.
                 let k = toLowerCase (name item)
                 in if k \<in> fst ` set deduped then deduped else deduped @ [(k, item)])
          [] (primary @ secondary))"

definition collectGroupValues :: "UnknownRecord \<Rightarrow> string \<Rightarrow> RepoContext option \<Rightarrow>
    MarketplaceGroupItem list" where
  "collectGroupValues record k repoContext =
     (let manifest = asRecord (getProp record ''manifest'');
          primary = toGroupItems (getProp record k) k repoContext;
          secondary = toGroupItems (case manifest of None \<Rightarrow> None | Some m \<Rightarrow> getProp m k) k repoContext
      in mergeGroupItems primary secondary)"

definition groupDefinitions :: "(string \<times> string) list" where
  "groupDefinitions =
     [(''skills'', ''Skills''), (''agents'', ''Agents''), (''commands'', ''Commands''),
      (''tools'', ''Tools''), (''prompts'', ''Prompts''), (''workflows'', ''Workflows'')]"

definition extractPluginGroups :: "UnknownRecord \<Rightarrow> RepoContext option \<Rightarrow> MarketplacePluginGroup list" where
  "extractPluginGroups record repoContext =
     foldl (\<lambda>gs (k, n).
              let its = collectGroupValues record k repoContext
              in if 0 < length its then gs @ [\<lparr>name = n, key = k, items = its\<rparr>] else gs)
       [] groupDefinitions"

fun firstArray :: "UnknownRecord \<Rightarrow> string list \<Rightarrow> json list" where
  "firstArray record [] = []"
| "firstArray record (k # ks) =
     (case getProp record k of Some (JArr value) \<Rightarrow> value | _ \<Rightarrow> firstArray record ks)"

definition getPluginList :: "json \<Rightarrow> json list" where
  "getPluginList document =
     (case document of
        JArr entries \<Rightarrow> entries
      | _ \<Rightarrow>
          (case asRecord (Some document) of
             None \<Rightarrow> []
           | Some record \<Rightarrow> firstArray record [''plugins'', ''items'', ''extensions'']))"

text \<open>The object that \<open>normalizePlugin\<close> returns: a plugin or a warning.\<close>

record normalized =
  plugin :: "MarketplacePlugin option"
  warning :: "string option"

definition nonObjectEntry :: "string \<Rightarrow> string" where
  "nonObjectEntry source = ''Skipped non-object plugin entry from '' @ source @ ''.''"

definition entryWithoutId :: "string \<Rightarrow> string" where
  "entryWithoutId source = ''Skipped plugin entry without id/name in '' @ source @ ''.''"

definition noPluginEntries :: "string \<Rightarrow> string" where
  "noPluginEntries source = ''No plugin entries found in '' @ source @ ''.''"

definition normalizePlugin :: "json \<Rightarrow> string \<Rightarrow> string \<Rightarrow> RepoContext option \<Rightarrow> normalized" where
  "normalizePlugin entry source documentUrl' repoContext =
     (case asRecord (Some entry) of
        None \<Rightarrow> \<lparr>plugin = None, warning = Some (nonObjectEntry source)\<rparr>
      | Some record \<Rightarrow>
          (case orElse (asString (getProp record ''id''))
                  (orElse (asString (getProp record ''slug'')) (asString (getProp record ''name''))) of
             None \<Rightarrow> \<lparr>plugin = None, warning = Some (entryWithoutId source)\<rparr>
           | Some ident \<Rightarrow>
               \<lparr>plugin = Some
                  \<lparr>name = orDefault (asString (getProp record ''name'')) ident,
                   description = asString (getProp record ''description''),
                   plugin_id = ident,
                   version =
                     Some (orDefault
                       (orElse (asString (getProp record ''version''))
                          (orElse (asString (getProp record ''latestVersion''))
                             (asString (case asRecord (getProp record ''manifest'') of
                                          None \<Rightarrow> None | Some m \<Rightarrow> getProp m ''version''))))
                       ''unknown''),
                   downloadUrl =
                     orElse (asString (getProp record ''downloadUrl''))
                       (orElse (asString (getProp record ''url''))
                          (asString (case asRecord (getProp record ''package'') of
                                       None \<Rightarrow> None | Some m \<Rightarrow> getProp m ''url''))),
                   groups = extractPluginGroups record repoContext,
                   sourceUrl = source,
                   marketplaceDocumentUrl = documentUrl',
                   raw = record\<rparr>,
                 warning = None\<rparr>))"

text \<open>
  The loop of \<open>normalizeMarketplaceDocument\<close> over the entries, on the two arrays that
  it fills. A warning is pushed when it is truthy: defined and not the empty string.
\<close>

fun normalizeEntries :: "json list \<Rightarrow> string \<Rightarrow> string \<Rightarrow> RepoContext option \<Rightarrow>
    string list \<Rightarrow> MarketplacePlugin list \<Rightarrow> string list \<times> MarketplacePlugin list" where
  "normalizeEntries [] source documentUrl' repoContext ws ps = (ws, ps)"
| "normalizeEntries (entry # rest) source documentUrl' repoContext ws ps =
     (let n = normalizePlugin entry source documentUrl' repoContext;
          ws' = (case warning n of Some w \<Rightarrow> if w \<noteq> [] then ws @ [w] else ws | None \<Rightarrow> ws);
          ps' = (case plugin n of Some p \<Rightarrow> ps @ [p] | None \<Rightarrow> ps)
      in normalizeEntries rest source documentUrl' repoContext ws' ps')"

text \<open>
  The third parameter is optional in the program and defaults to the source URL:
  \<open>None\<close> is the omitted argument.
\<close>

definition normalizeMarketplaceDocument :: "json \<Rightarrow> string \<Rightarrow> string option \<Rightarrow> RepoContext option \<Rightarrow>
    MarketplaceFetchResult" where
  "normalizeMarketplaceDocument document source documentUrl' repoContext =
     (let entries = getPluginList document;
          ws = (if length entries = 0 then [noPluginEntries source] else []);
          (ws', ps) = normalizeEntries entries source (orDefault documentUrl' source) repoContext ws []
      in \<lparr>warnings = ws', errors = [], plugins = ps\<rparr>)"

text \<open>
  An entry that normalizes to a plugin: an object whose \<^verbatim>\<open>id\<close>, \<^verbatim>\<open>slug\<close> or
  \<^verbatim>\<open>name\<close> is a string that is not empty after trimming.
\<close>

definition hasIdentity :: "UnknownRecord \<Rightarrow> bool" where
  "hasIdentity record =
     (asString (getProp record ''id'') \<noteq> None \<or> asString (getProp record ''slug'') \<noteq> None \<or>
      asString (getProp record ''name'') \<noteq> None)"

definition validEntry :: "json \<Rightarrow> bool" where
  "validEntry entry = (case entry of JObj record \<Rightarrow> hasIdentity record | _ \<Rightarrow> False)"

text \<open>The warning of an entry that does not normalize.\<close>

definition entryWarning :: "string \<Rightarrow> json \<Rightarrow> string" where
  "entryWarning source entry =
     (case entry of JObj record \<Rightarrow> entryWithoutId source | _ \<Rightarrow> nonObjectEntry source)"

text \<open>The record of an entry that is an object.\<close>

definition entryRecord :: "json \<Rightarrow> UnknownRecord" where
  "entryRecord entry = (case entry of JObj record \<Rightarrow> record | _ \<Rightarrow> [])"

text \<open>\<^verbatim>\<open>s.includes(t)\<close>: \<open>t\<close> occurs in \<open>s\<close>.\<close>

fun includesStr :: "string \<Rightarrow> string \<Rightarrow> bool" where
  "includesStr [] t = (t = [])"
| "includesStr (c # cs) t = (take (length t) (c # cs) = t \<or> includesStr cs t)"

text \<open>The document of the repository's test of the normalizer.\<close>

definition testDocument :: json where
  "testDocument =
     JObj [(''plugins'', JArr [JObj
       [(''id'', JStr ''alpha''), (''name'', JStr ''Alpha Plugin''), (''version'', JStr ''1.2.3''),
        (''description'', JStr ''Test plugin''),
        (''downloadUrl'', JStr ''https://example.com/alpha.tgz''),
        (''skills'', JArr [JObj [(''name'', JStr ''summarize'')]]),
        (''agents'', JArr [JStr ''triage-agent''])]])]"

text \<open>A document with one entry that normalizes and two that do not.\<close>

definition mixedManifest :: json where
  "mixedManifest =
     JObj [(''title'', JStr ''Example''),
           (''items'', JArr [JObj [(''slug'', JStr '' beta '')], JNum 7,
                             JObj [(''id'', JStr ''  ''), (''skills'', JArr [])]])]"

text \<open>A document whose plugin list is present and empty.\<close>

definition emptyManifest :: json where
  "emptyManifest = JObj [(''plugins'', JArr [])]"

section \<open>Aggregator\<close>

text \<open>
  One element of what \<^verbatim>\<open>Promise.allSettled\<close> resolves to: the result of a fulfilled
  \<open>fetchMarketplace\<close>, or the reason of a rejected one, as the template string prints it.
\<close>

datatype settled = Fulfilled MarketplaceFetchResult | Rejected string

text \<open>\<^verbatim>\<open>left.localeCompare(right)\<close> belongs to the platform: a parameter.\<close>

type_synonym comparator = "string \<Rightarrow> string \<Rightarrow> int"

definition dedupeKey :: "MarketplacePlugin \<Rightarrow> string" where
  "dedupeKey p = plugin_id p @ ''::'' @ sourceUrl p"

text \<open>The loop over the settled results, on the aggregate.\<close>

definition collect :: "MarketplaceFetchResult \<Rightarrow> settled \<Rightarrow> MarketplaceFetchResult" where
  "collect aggregate result =
     (case result of
        Fulfilled v \<Rightarrow>
          aggregate\<lparr>plugins := plugins aggregate @ plugins v,
                    warnings := warnings aggregate @ warnings v,
                    errors := errors aggregate @ errors v\<rparr>
      | Rejected reason \<Rightarrow>
          aggregate\<lparr>errors := errors aggregate @ [''Marketplace fetch failed: '' @ reason]\<rparr>)"

text \<open>
  The \<^verbatim>\<open>Map\<close> named \<open>deduped\<close>, as the list of its entries in insertion order, and
  \<^verbatim>\<open>Array.from(deduped.values())\<close>.
\<close>

definition dedupeStep :: "(string \<times> MarketplacePlugin) list \<Rightarrow> MarketplacePlugin \<Rightarrow>
    (string \<times> MarketplacePlugin) list" where
  "dedupeStep deduped p =
     (let k = dedupeKey p in if k \<in> fst ` set deduped then deduped else deduped @ [(k, p)])"

definition dedupe :: "MarketplacePlugin list \<Rightarrow> MarketplacePlugin list" where
  "dedupe ps = map snd (foldl dedupeStep [] ps)"

text \<open>
  \<^verbatim>\<open>array.sort(compare)\<close>: a stable sort. For a comparator that is consistent there is
  one stable sorted arrangement of an array, so any stable algorithm stands for the
  platform's; this one inserts each element before the first element of the sorted rest
  that it does not exceed.
\<close>

fun insertSorted :: "('a \<Rightarrow> 'a \<Rightarrow> int) \<Rightarrow> 'a \<Rightarrow> 'a list \<Rightarrow> 'a list" where
  "insertSorted compare x [] = [x]"
| "insertSorted compare x (y # ys) =
     (if compare x y \<le> 0 then x # y # ys else y # insertSorted compare x ys)"

definition sortWith :: "('a \<Rightarrow> 'a \<Rightarrow> int) \<Rightarrow> 'a list \<Rightarrow> 'a list" where
  "sortWith compare xs = foldr (insertSorted compare) xs []"

text \<open>
  \<open>fetchAllMarketplaces\<close>, from the settled results of the fetches of its URLs, in the
  order of the URLs.
\<close>

definition fetchAllMarketplaces :: "comparator \<Rightarrow> settled list \<Rightarrow> MarketplaceFetchResult" where
  "fetchAllMarketplaces localeCompare results =
     (let aggregate = foldl collect \<lparr>warnings = [], errors = [], plugins = []\<rparr> results
      in aggregate\<lparr>plugins :=
           sortWith (\<lambda>left right. localeCompare (name left) (name right))
             (dedupe (plugins aggregate))\<rparr>)"

text \<open>The parts of a settled result.\<close>

definition settledPlugins :: "settled \<Rightarrow> MarketplacePlugin list" where
  "settledPlugins result = (case result of Fulfilled v \<Rightarrow> plugins v | Rejected reason \<Rightarrow> [])"

definition settledWarnings :: "settled \<Rightarrow> string list" where
  "settledWarnings result = (case result of Fulfilled v \<Rightarrow> warnings v | Rejected reason \<Rightarrow> [])"

definition settledErrors :: "settled \<Rightarrow> string list" where
  "settledErrors result =
     (case result of Fulfilled v \<Rightarrow> errors v
      | Rejected reason \<Rightarrow> [''Marketplace fetch failed: '' @ reason])"

text \<open>The identity of a plugin in an aggregated result: its id and its source URL.\<close>

definition idAndSource :: "MarketplacePlugin \<Rightarrow> string \<times> string" where
  "idAndSource p = (plugin_id p, sourceUrl p)"

text \<open>Deduplication by a key, first occurrence wins, in the words of the specification.\<close>

fun firstOccurrences :: "('a \<Rightarrow> 'k) \<Rightarrow> 'a list \<Rightarrow> 'a list" where
  "firstOccurrences f [] = []"
| "firstOccurrences f (p # ps) = p # firstOccurrences f (filter (\<lambda>q. f q \<noteq> f p) ps)"

text \<open>A comparator that is consistent: total and transitive.\<close>

definition consistent :: "('a \<Rightarrow> 'a \<Rightarrow> int) \<Rightarrow> bool" where
  "consistent compare =
     ((\<forall>a b. compare a b \<le> 0 \<or> compare b a \<le> 0) \<and>
      (\<forall>a b c. compare a b \<le> 0 \<and> compare b c \<le> 0 \<longrightarrow> compare a c \<le> 0))"

text \<open>A comparator for the examples: the order of the code units.\<close>

fun codeUnitCompare :: comparator where
  "codeUnitCompare [] [] = 0"
| "codeUnitCompare [] (y # ys) = - 1"
| "codeUnitCompare (x # xs) [] = 1"
| "codeUnitCompare (x # xs) (y # ys) =
     (if (of_char x :: nat) < of_char y then - 1
      else if (of_char y :: nat) < of_char x then 1
      else codeUnitCompare xs ys)"

text \<open>A plugin for the examples, with the given id, name and source URL.\<close>

definition examplePlugin :: "string \<Rightarrow> string \<Rightarrow> string \<Rightarrow> MarketplacePlugin" where
  "examplePlugin ident n source =
     \<lparr>name = n, description = None, plugin_id = ident, version = Some ''unknown'',
      downloadUrl = None, groups = [], sourceUrl = source, marketplaceDocumentUrl = source,
      raw = [(''id'', JStr ident), (''name'', JStr n)]\<rparr>"

text \<open>
  Three settled results: two plugins, a rejection, and a repetition of the pair of the
  first result's second plugin beside a new plugin.
\<close>

definition exampleResults :: "settled list" where
  "exampleResults =
     [Fulfilled \<lparr>warnings = [''w1''], errors = [],
                 plugins = [examplePlugin ''z'' ''Zeta'' ''https://one.example/m.json'',
                            examplePlugin ''a'' ''Alpha'' ''https://one.example/m.json'']\<rparr>,
      Rejected ''timeout'',
      Fulfilled \<lparr>warnings = [], errors = [''e3''],
                 plugins = [examplePlugin ''a'' ''Alpha again'' ''https://one.example/m.json'',
                            examplePlugin ''b'' ''Beta'' ''https://three.example/m.json'']\<rparr>]"

text \<open>
  The results of two marketplaces whose URLs are \<^verbatim>\<open>https://h.example/y\<close> and
  \<^verbatim>\<open>https://h.example/x::https://h.example/y\<close>: the first lists a plugin with the id
  \<^verbatim>\<open>a::https://h.example/x\<close>, the second a plugin with the id \<^verbatim>\<open>a\<close>.
\<close>

definition maskingPlugin :: MarketplacePlugin where
  "maskingPlugin = examplePlugin ''a::https://h.example/x'' ''First'' ''https://h.example/y''"

definition maskedPlugin :: MarketplacePlugin where
  "maskedPlugin = examplePlugin ''a'' ''Second'' ''https://h.example/x::https://h.example/y''"

definition maskingResults :: "settled list" where
  "maskingResults =
     [Fulfilled \<lparr>warnings = [], errors = [], plugins = [maskingPlugin]\<rparr>,
      Fulfilled \<lparr>warnings = [], errors = [], plugins = [maskedPlugin]\<rparr>]"

text \<open>Two plugins with distinct pairs of id and source URL and the same key.\<close>

definition collidingFirst :: MarketplacePlugin where
  "collidingFirst = examplePlugin ''a::b'' ''First'' ''c''"

definition collidingSecond :: MarketplacePlugin where
  "collidingSecond = examplePlugin ''a'' ''Second'' ''b::c''"

section \<open>Cache layer\<close>

text \<open>
  Times are milliseconds as \<^verbatim>\<open>Date.now()\<close> gives them, integers; every operation that
  reads the clock takes its reading as the parameter \<open>now\<close>. The cached data is of any
  type \<open>'a\<close>. The interfaces of the cache share the field name \<open>data\<close>, declared once.
\<close>

record 'a dataful =
  data :: 'a

record 'a CacheEntry = "'a dataful" +
  timestamp :: int
  etag :: "string option"

record CacheConfig =
  freshTTL :: int
  staleTTL :: int

text \<open>The optional argument of the constructor, a \<^verbatim>\<open>Partial<CacheConfig>\<close>.\<close>

record PartialConfig =
  freshTTL_given :: "int option"
  staleTTL_given :: "int option"

definition DEFAULT_CONFIG :: CacheConfig where
  "DEFAULT_CONFIG = \<lparr>freshTTL = 5 * 60 * 1000, staleTTL = 60 * 60 * 1000\<rparr>"

text \<open>The result of \<open>get\<close> and the result of \<open>getWithRefresh\<close>.\<close>

record 'a Cached = "'a dataful" +
  isFresh :: bool

record 'a Refreshed = "'a dataful" +
  fromCache :: bool
  refreshing :: bool

text \<open>
  The state of a \<open>MarketplaceCache\<close>. The two maps are the lists of their entries in
  insertion order. \<open>globalState\<close> is what the memento holds under the key
  \<^verbatim>\<open>marketplaceCache\<close>: nothing, or the stored object as the list of its properties; the
  memento gives back what was last given to it. Two more fields record what the class does
  to the world outside it: \<open>fetched\<close> lists the keys for which a fetcher has been
  invoked, in order, and \<open>background\<close> lists the keys of the background refreshes that
  have started and have not settled.
\<close>

record 'a MarketplaceCache =
  memoryCache :: "(string \<times> 'a CacheEntry) list"
  pendingRefreshes :: "string list"
  config :: CacheConfig
  globalState :: "(string \<times> 'a CacheEntry) list option"
  fetched :: "string list"
  background :: "string list"

text \<open>
  \<^verbatim>\<open>data[key] = entry\<close> on a plain object, the entry being an object. The key
  \<^verbatim>\<open>__proto__\<close> reaches the accessor that every plain object inherits: the assignment
  makes the entry the prototype of the object and stores no property. Every other key
  becomes a property of the object, or gets a new value if it is one already.
\<close>

definition assignProperty :: "(string \<times> 'v) list \<Rightarrow> string \<Rightarrow> 'v \<Rightarrow> (string \<times> 'v) list" where
  "assignProperty record k entry =
     (if k = ''__proto__'' then record else AList.update k entry record)"

text \<open>
  \<open>persistToStorage\<close> copies the entries of the map into a fresh object, one assignment
  for each entry, and hands the object to the memento. The list built here has the
  properties in the order of assignment; the platform may enumerate them in another
  order, and what is proved about a reload does not depend on the order.
\<close>

definition persistToStorage :: "'a MarketplaceCache \<Rightarrow> 'a MarketplaceCache" where
  "persistToStorage c =
     c\<lparr>globalState := Some (foldl (\<lambda>record (k, entry). assignProperty record k entry) []
                               (memoryCache c))\<rparr>"

definition loadFromStorage :: "int \<Rightarrow> 'a MarketplaceCache \<Rightarrow> 'a MarketplaceCache" where
  "loadFromStorage now c =
     (case globalState c of
        None \<Rightarrow> c
      | Some stored \<Rightarrow>
          c\<lparr>memoryCache :=
               foldl (\<lambda>m (k, entry).
                        if now - timestamp entry \<le> staleTTL (config c)
                        then AList.update k entry m else m)
                 (memoryCache c) stored\<rparr>)"

text \<open>
  The constructor, from the clock, the content of the memento and the optional
  configuration: \<^verbatim>\<open>{ ...DEFAULT_CONFIG, ...config }\<close>, then \<open>loadFromStorage\<close>. In
  a \<open>PartialConfig\<close>, \<open>None\<close> is a property that is not given.
\<close>

definition mergeConfig :: "PartialConfig option \<Rightarrow> CacheConfig" where
  "mergeConfig given =
     (case given of
        None \<Rightarrow> DEFAULT_CONFIG
      | Some g \<Rightarrow>
          \<lparr>freshTTL = orDefault (freshTTL_given g) (freshTTL DEFAULT_CONFIG),
           staleTTL = orDefault (staleTTL_given g) (staleTTL DEFAULT_CONFIG)\<rparr>)"

definition newCache :: "int \<Rightarrow> (string \<times> 'a CacheEntry) list option \<Rightarrow> PartialConfig option \<Rightarrow>
    'a MarketplaceCache" where
  "newCache now stored given =
     loadFromStorage now
       \<lparr>memoryCache = [], pendingRefreshes = [], config = mergeConfig given,
        globalState = stored, fetched = [], background = []\<rparr>"

definition get :: "int \<Rightarrow> string \<Rightarrow> 'a MarketplaceCache \<Rightarrow> 'a Cached option \<times> 'a MarketplaceCache" where
  "get now k c =
     (case map_of (memoryCache c) k of
        None \<Rightarrow> (None, c)
      | Some entry \<Rightarrow>
          (let age = now - timestamp entry
           in if age > staleTTL (config c)
              then (None, persistToStorage (c\<lparr>memoryCache := AList.delete k (memoryCache c)\<rparr>))
              else (Some \<lparr>data = data entry, isFresh = (age \<le> freshTTL (config c))\<rparr>, c)))"

definition set' :: "int \<Rightarrow> string \<Rightarrow> 'a \<Rightarrow> string option \<Rightarrow> 'a MarketplaceCache \<Rightarrow> 'a MarketplaceCache" where
  "set' now k d tag c =
     persistToStorage
       (c\<lparr>memoryCache :=
            AList.update k \<lparr>data = d, timestamp = now, etag = tag\<rparr> (memoryCache c)\<rparr>)"

definition clear :: "string \<Rightarrow> 'a MarketplaceCache \<Rightarrow> 'a MarketplaceCache" where
  "clear k c = persistToStorage (c\<lparr>memoryCache := AList.delete k (memoryCache c)\<rparr>)"

definition clearAll :: "'a MarketplaceCache \<Rightarrow> 'a MarketplaceCache" where
  "clearAll c = persistToStorage (c\<lparr>memoryCache := []\<rparr>)"

definition isRefreshing :: "string \<Rightarrow> 'a MarketplaceCache \<Rightarrow> bool" where
  "isRefreshing k c = (k \<in> set (pendingRefreshes c))"

text \<open>
  A settled promise: \<open>Inl\<close> is a rejection with its reason as text, \<open>Inr\<close> a fulfilment
  with its value.
\<close>

type_synonym 'r settlement = "string + 'r"

text \<open>
  \<open>fetchAndCache\<close> invokes the fetcher at once and suspends until the fetcher's promise
  settles. The first half records the invocation; the second half runs when the promise
  has settled, with the clock of that moment.
\<close>

definition fetchAndCache_invoke :: "string \<Rightarrow> 'a MarketplaceCache \<Rightarrow> 'a MarketplaceCache" where
  "fetchAndCache_invoke k c = c\<lparr>fetched := fetched c @ [k]\<rparr>"

definition fetchAndCache_settled :: "int \<Rightarrow> string \<Rightarrow> 'a settlement \<Rightarrow> 'a MarketplaceCache \<Rightarrow>
    'a settlement \<times> 'a MarketplaceCache" where
  "fetchAndCache_settled now k outcome c =
     (case outcome of
        Inr d \<Rightarrow> (Inr d, set' now k d None c)
      | Inl reason \<Rightarrow> (Inl reason, c))"

text \<open>
  \<open>refreshInBackground\<close>: nothing when the key has a pending refresh; else
  \<open>fetchAndCache\<close> is started, its promise gets the three reactions below, and the key
  is marked as pending.
\<close>

definition refreshInBackground :: "string \<Rightarrow> 'a MarketplaceCache \<Rightarrow> 'a MarketplaceCache" where
  "refreshInBackground k c =
     (if k \<in> set (pendingRefreshes c) then c
      else (let c1 = fetchAndCache_invoke k c
            in c1\<lparr>pendingRefreshes := pendingRefreshes c1 @ [k],
                   background := background c1 @ [k]\<rparr>))"

text \<open>The reactions \<^verbatim>\<open>.then(...)\<close>, \<^verbatim>\<open>.catch(...)\<close> and \<^verbatim>\<open>.finally(...)\<close>.\<close>

definition thenCompleted :: "'a settlement \<Rightarrow> unit settlement" where
  "thenCompleted s = (case s of Inr d \<Rightarrow> Inr () | Inl reason \<Rightarrow> Inl reason)"

definition catchFailed :: "unit settlement \<Rightarrow> unit settlement" where
  "catchFailed s = (case s of Inr u \<Rightarrow> Inr u | Inl reason \<Rightarrow> Inr ())"

definition finallyDelete :: "string \<Rightarrow> 'a MarketplaceCache \<Rightarrow> 'a MarketplaceCache" where
  "finallyDelete k c =
     c\<lparr>pendingRefreshes := removeAll k (pendingRefreshes c),
       background := remove1 k (background c)\<rparr>"

text \<open>
  The fetcher of a background refresh settles: the second half of \<open>fetchAndCache\<close> and
  the three reactions run. The first component is the settlement of the promise that
  \<open>pendingRefreshes\<close> held, which \<open>waitForRefresh\<close> awaits.
\<close>

definition refreshSettled :: "int \<Rightarrow> string \<Rightarrow> 'a settlement \<Rightarrow> 'a MarketplaceCache \<Rightarrow>
    unit settlement \<times> 'a MarketplaceCache" where
  "refreshSettled now k outcome c =
     (let (s, c1) = fetchAndCache_settled now k outcome c
      in (catchFailed (thenCompleted s), finallyDelete k c1))"

text \<open>
  \<open>getWithRefresh\<close> up to its \<^verbatim>\<open>await\<close>: it has returned, or it waits for the fetcher
  with the value of \<open>cached\<close> that it holds. \<open>options\<close> is the field \<open>forceRefresh\<close> of
  the optional argument, \<open>None\<close> when it is not given.
\<close>

datatype 'a suspension = Returned "'a Refreshed" | Awaiting "'a Cached option"

definition getWithRefresh_begin :: "int \<Rightarrow> string \<Rightarrow> bool option \<Rightarrow> 'a MarketplaceCache \<Rightarrow>
    'a suspension \<times> 'a MarketplaceCache" where
  "getWithRefresh_begin now k options c =
     (let (cached, c1) = get now k c;
          forceRefresh = orDefault options False
      in case cached of
           None \<Rightarrow> (Awaiting cached, fetchAndCache_invoke k c1)
         | Some hit \<Rightarrow>
             if forceRefresh then (Awaiting cached, fetchAndCache_invoke k c1)
             else if isFresh hit then
               (Returned \<lparr>data = data hit, fromCache = True, refreshing = False\<rparr>, c1)
             else
               (Returned \<lparr>data = data hit, fromCache = True, refreshing = True\<rparr>,
                refreshInBackground k c1))"

text \<open>
  \<open>getWithRefresh\<close> after its \<^verbatim>\<open>await\<close>, when the fetcher's promise has settled:
  \<open>Inl\<close> is the error thrown to the caller.
\<close>

definition getWithRefresh_resume :: "int \<Rightarrow> string \<Rightarrow> 'a Cached option \<Rightarrow> 'a settlement \<Rightarrow>
    'a MarketplaceCache \<Rightarrow> (string + 'a Refreshed) \<times> 'a MarketplaceCache" where
  "getWithRefresh_resume now k cached outcome c =
     (case fetchAndCache_settled now k outcome c of
        (Inr d, c1) \<Rightarrow> (Inr \<lparr>data = d, fromCache = False, refreshing = False\<rparr>, c1)
      | (Inl reason, c1) \<Rightarrow>
          (case cached of
             Some hit \<Rightarrow> (Inr \<lparr>data = data hit, fromCache = True, refreshing = False\<rparr>, c1)
           | None \<Rightarrow> (Inl reason, c1)))"

text \<open>
  A whole call of \<open>getWithRefresh\<close> during whose \<^verbatim>\<open>await\<close> nothing else touches the
  cache: \<open>now\<close> is the clock at the call, \<open>later\<close> the clock when the fetcher settles
  with \<open>outcome\<close>.
\<close>

definition getWithRefresh :: "int \<Rightarrow> int \<Rightarrow> string \<Rightarrow> 'a settlement \<Rightarrow> bool option \<Rightarrow>
    'a MarketplaceCache \<Rightarrow> (string + 'a Refreshed) \<times> 'a MarketplaceCache" where
  "getWithRefresh now later k outcome options c =
     (case getWithRefresh_begin now k options c of
        (Returned r, c1) \<Rightarrow> (Inr r, c1)
      | (Awaiting cached, c1) \<Rightarrow> getWithRefresh_resume later k cached outcome c1)"

text \<open>
  The states that a cache can be in: made by the constructor, then changed by the
  operations of the class and by the settling of a background refresh that is running.
  The settling is a step of its own, and so are its two parts, the write of the fetched
  data and the reaction that removes the mark, between which other steps may run.
\<close>

inductive reachable :: "'a MarketplaceCache \<Rightarrow> bool" where
  constructed: "reachable (newCache now stored given)"
| got: "reachable c \<Longrightarrow> reachable (snd (get now k c))"
| was_set: "reachable c \<Longrightarrow> reachable (set' now k d tag c)"
| cleared: "reachable c \<Longrightarrow> reachable (clear k c)"
| cleared_all: "reachable c \<Longrightarrow> reachable (clearAll c)"
| began: "reachable c \<Longrightarrow> reachable (snd (getWithRefresh_begin now k options c))"
| resumed: "reachable c \<Longrightarrow> reachable (snd (getWithRefresh_resume now k cached outcome c))"
| triggered: "reachable c \<Longrightarrow> reachable (refreshInBackground k c)"
| settled: "reachable c \<Longrightarrow> k \<in> set (background c) \<Longrightarrow>
    reachable (snd (refreshSettled now k outcome c))"
| written: "reachable c \<Longrightarrow> k \<in> set (background c) \<Longrightarrow>
    reachable (snd (fetchAndCache_settled now k outcome c))"
| finished: "reachable c \<Longrightarrow> k \<in> set (background c) \<Longrightarrow>
    reachable (finallyDelete k c)"

text \<open>A cache for the examples: made at time 0 from an empty memento, with the default configuration.\<close>

definition exampleCache :: "string MarketplaceCache" where
  "exampleCache = newCache 0 None None"

text \<open>The example cache after \<^verbatim>\<open>set('k', 'v')\<close> at time 1000.\<close>

definition filledCache :: "string MarketplaceCache" where
  "filledCache = set' 1000 ''k'' ''v'' None exampleCache"

text \<open>The invariant of the two maps and of the running background refreshes.\<close>

definition wellFormed :: "'a MarketplaceCache \<Rightarrow> bool" where
  "wellFormed c =
     (distinct (map fst (memoryCache c)) \<and> distinct (pendingRefreshes c) \<and>
      distinct (background c) \<and> set (background c) = set (pendingRefreshes c))"

text \<open>What a read of key \<open>k\<close> at time \<open>now\<close> finds in a map under a configuration.\<close>

definition readable :: "int \<Rightarrow> CacheConfig \<Rightarrow> (string \<times> 'a CacheEntry) list \<Rightarrow> string \<Rightarrow>
    'a CacheEntry option" where
  "readable now cfg m k =
     (case map_of m k of
        Some entry \<Rightarrow> if now - timestamp entry \<le> staleTTL cfg then Some entry else None
      | None \<Rightarrow> None)"

text \<open>The example cache with a background refresh of key \<^verbatim>\<open>k\<close> running.\<close>

definition refreshingCache :: "string MarketplaceCache" where
  "refreshingCache = refreshInBackground ''k'' filledCache"

text \<open>A cache with an entry that is too old at time 4000000 and one that is not.\<close>

definition agedCache :: "string MarketplaceCache" where
  "agedCache = set' 3900000 ''10'' ''new'' (Some ''tag'') (set' 1000 ''old'' ''v'' None exampleCache)"

text \<open>The example cache after \<^verbatim>\<open>set('__proto__', 'v')\<close> at time 1000.\<close>

definition protoCache :: "string MarketplaceCache" where
  "protoCache = set' 1000 ''__proto__'' ''v'' None exampleCache"

text \<open>
  The object that \<open>agedCache\<close> persists, as the platform enumerates it: the key
  \<^verbatim>\<open>10\<close>, which is an array index, comes before the key \<^verbatim>\<open>old\<close>.
\<close>

definition agedStored :: "(string \<times> string CacheEntry) list" where
  "agedStored =
     [(''10'', \<lparr>data = ''new'', timestamp = 3900000, etag = Some ''tag''\<rparr>),
      (''old'', \<lparr>data = ''v'', timestamp = 1000, etag = None\<rparr>)]"

section \<open>Candidate generation for a repository root\<close>

lemma pathSegments_acme_skills:
  "pathSegments ''/acme/skills'' = [''acme'', ''skills'']"
  by (simp add: pathSegments_def)

text \<open>
  Claim C1. For the input \<^verbatim>\<open>https://github.com/acme/skills\<close>, which the platform parses
  into the protocol \<^verbatim>\<open>https:\<close>, the host \<^verbatim>\<open>github.com\<close> and the path
  \<^verbatim>\<open>/acme/skills\<close>, \<open>candidateMarketplaceUrls\<close> returns exactly four candidates, in
  this order: the primary manifest path on branch main, the same path on branch master,
  the secondary manifest path on branch main, the same path on branch master.
\<close>

theorem candidateMarketplaceUrls_repo_root:
  assumes "parse ''https://github.com/acme/skills'' = Some u"
    and "protocol u = ''https:''"
    and "hostname u = ''github.com''"
    and "pathname u = ''/acme/skills''"
  shows "candidateMarketplaceUrls parse ''https://github.com/acme/skills'' =
    [''https://raw.githubusercontent.com/acme/skills/main/.claude-plugin/marketplace.json'',
     ''https://raw.githubusercontent.com/acme/skills/master/.claude-plugin/marketplace.json'',
     ''https://raw.githubusercontent.com/acme/skills/main/.github/plugin/marketplace.json'',
     ''https://raw.githubusercontent.com/acme/skills/master/.github/plugin/marketplace.json'']"
proof -
  have h: "toLowerCase ''github.com'' = ''github.com''"
    by code_simp
  have p: "isHttpProtocol ''https:''"
    by code_simp
  have r: "stripDotGit ''skills'' = ''skills''"
    by code_simp
  show ?thesis
    using assms
    by (simp add: candidateMarketplaceUrls_def h p r pathSegments_acme_skills rawHost_def
        setAdd_def)
qed

lemma simpleURL_acme_skills:
  "simpleURL ''https://github.com/acme/skills'' =
     Some \<lparr>protocol = ''https:'', hostname = ''github.com'', pathname = ''/acme/skills'',
           origin = ''https://github.com''\<rparr>"
  by code_simp

theorem candidateMarketplaceUrls_repo_root_witness:
  "candidateMarketplaceUrls simpleURL ''https://github.com/acme/skills'' =
    [''https://raw.githubusercontent.com/acme/skills/main/.claude-plugin/marketplace.json'',
     ''https://raw.githubusercontent.com/acme/skills/master/.claude-plugin/marketplace.json'',
     ''https://raw.githubusercontent.com/acme/skills/main/.github/plugin/marketplace.json'',
     ''https://raw.githubusercontent.com/acme/skills/master/.github/plugin/marketplace.json'']"
  using candidateMarketplaceUrls_repo_root [of simpleURL, OF simpleURL_acme_skills]
  by simp

section \<open>Resolution of a marketplace URL\<close>

lemma probe_fails:
  "probeFails fetch c \<Longrightarrow>
     probe fetch (c # cs) ws sent = probe fetch cs (ws @ [probeWarning fetch c]) (sent @ [c])"
  by (cases "fetch c") (simp_all add: probeFails_def probeWarning_def)

lemma probe_succeeds:
  "\<not> probeFails fetch c \<Longrightarrow> probe fetch (c # cs) ws sent = (Some c, ws, sent @ [c])"
  by (cases "fetch c") (simp_all add: probeFails_def)

lemma probe_eq:
  "probe fetch cs ws sent =
     (case dropWhile (probeFails fetch) cs of
        [] \<Rightarrow> (None, ws @ map (probeWarning fetch) cs, sent @ cs)
      | c # _ \<Rightarrow> (Some c, ws @ map (probeWarning fetch) (takeWhile (probeFails fetch) cs),
                  sent @ takeWhile (probeFails fetch) cs @ [c]))"
proof (induction cs arbitrary: ws sent)
  case Nil
  show ?case by simp
next
  case (Cons c cs)
  show ?case
  proof (cases "probeFails fetch c")
    case True
    have dw: "dropWhile (probeFails fetch) (c # cs) = dropWhile (probeFails fetch) cs"
      and tw: "takeWhile (probeFails fetch) (c # cs) = c # takeWhile (probeFails fetch) cs"
      using True by simp_all
    show ?thesis
      unfolding dw tw probe_fails [OF True] Cons.IH
      by (simp split: list.split del: dropWhile_eq_Nil_conv)
  next
    case False
    have dw: "dropWhile (probeFails fetch) (c # cs) = c # cs"
      and tw: "takeWhile (probeFails fetch) (c # cs) = []"
      using False by simp_all
    show ?thesis
      unfolding dw tw probe_succeeds [OF False] by simp
  qed
qed

text \<open>
  Claim C2, as the code has it. For every input URL, \<open>resolveMarketplaceUrl\<close> sends its
  requests to the generated candidates in their order and stops at the first candidate
  whose response is ok. If there is one, the result is that candidate as the document
  URL, with an empty list of warnings and an empty list of errors: the failures of the
  candidates before it are not in the result. If every candidate fails, all candidates
  have been requested, and the result has no document URL, one warning for each candidate,
  in order, and exactly one error, which quotes the input URL. The result is a value in
  every case: a thrown error of a request becomes a warning.
\<close>

theorem resolveMarketplaceUrl_result:
  "resolveMarketplaceUrl parse fetch inputUrl =
     (let candidates = candidateMarketplaceUrls parse inputUrl
      in case dropWhile (probeFails fetch) candidates of
           [] \<Rightarrow>
             (\<lparr>warnings = map (probeWarning fetch) candidates,
               errors = [''Could not resolve marketplace document from '' @ [CHR 0x27] @ inputUrl
                          @ [CHR 0x27] @ ''.''],
               documentUrl = None\<rparr>,
              candidates)
         | c # _ \<Rightarrow>
             (\<lparr>warnings = [], errors = [], documentUrl = Some c\<rparr>,
              takeWhile (probeFails fetch) candidates @ [c]))"
proof (cases "dropWhile (probeFails fetch) (candidateMarketplaceUrls parse inputUrl)")
  case Nil
  show ?thesis
    unfolding resolveMarketplaceUrl_def Let_def probe_eq Nil
    by (simp add: couldNotResolve_def)
next
  case (Cons c rest)
  show ?thesis
    unfolding resolveMarketplaceUrl_def Let_def probe_eq Cons
    by simp
qed

theorem resolveMarketplaceUrl_result_witness:
  "resolveMarketplaceUrl simpleURL masterOnly ''https://github.com/acme/skills'' =
     (\<lparr>warnings = [], errors = [],
       documentUrl = Some ''https://raw.githubusercontent.com/acme/skills/master/.claude-plugin/marketplace.json''\<rparr>,
      [''https://raw.githubusercontent.com/acme/skills/main/.claude-plugin/marketplace.json'',
       ''https://raw.githubusercontent.com/acme/skills/master/.claude-plugin/marketplace.json''])
   \<and> resolveMarketplaceUrl simpleURL unreachable ''ftp://example.com/x'' =
     (\<lparr>warnings = [''Marketplace candidate unreachable: ftp://example.com/x (fetch failed)''],
       errors = [''Could not resolve marketplace document from '' @ [CHR 0x27] @ ''ftp://example.com/x''
                 @ [CHR 0x27] @ ''.''],
       documentUrl = None\<rparr>,
      [''ftp://example.com/x''])"
  unfolding resolveMarketplaceUrl_result
  by code_simp

text \<open>
  The claim as the specification words it asks that every candidate that failed before
  the successful one is a warning of the returned result. On the network \<open>masterOnly\<close>
  the first candidate of \<^verbatim>\<open>https://github.com/acme/skills\<close> fails with status 404, the
  second one is found, and the returned list of warnings is empty.
\<close>

theorem resolveMarketplaceUrl_success_has_no_warnings:
  "probeFails masterOnly
     ''https://raw.githubusercontent.com/acme/skills/main/.claude-plugin/marketplace.json'' \<and>
   documentUrl (fst (resolveMarketplaceUrl simpleURL masterOnly ''https://github.com/acme/skills'')) =
     Some ''https://raw.githubusercontent.com/acme/skills/master/.claude-plugin/marketplace.json'' \<and>
   snd (resolveMarketplaceUrl simpleURL masterOnly ''https://github.com/acme/skills'') =
     [''https://raw.githubusercontent.com/acme/skills/main/.claude-plugin/marketplace.json'',
      ''https://raw.githubusercontent.com/acme/skills/master/.claude-plugin/marketplace.json''] \<and>
   warnings (fst (resolveMarketplaceUrl simpleURL masterOnly ''https://github.com/acme/skills'')) = []"
  by code_simp

section \<open>Normalization of a manifest document\<close>

text \<open>
  The repository's test of the normalizer, run on the model: no error, no warning, one
  plugin \<^verbatim>\<open>alpha\<close> named \<^verbatim>\<open>Alpha Plugin\<close>, with two groups, the first item of
  the first group being \<^verbatim>\<open>summarize\<close>.
\<close>

lemma normalizeMarketplaceDocument_repository_test:
  "let result = normalizeMarketplaceDocument testDocument ''https://marketplace.example/marketplace.json'' None None
   in length (errors result) = 0 \<and> length (warnings result) = 0 \<and> length (plugins result) = 1 \<and>
      plugin_id (plugins result ! 0) = ''alpha'' \<and> name (plugins result ! 0) = ''Alpha Plugin'' \<and>
      length (groups (plugins result ! 0)) = 2 \<and>
      name (items (groups (plugins result ! 0) ! 0) ! 0) = ''summarize''"
  by code_simp

lemma normalizePlugin_valid:
  "validEntry e \<Longrightarrow>
     \<exists>p. normalizePlugin e s d c = \<lparr>plugin = Some p, warning = None\<rparr> \<and> raw p = entryRecord e \<and>
         sourceUrl p = s"
  by (cases e) (auto simp: validEntry_def hasIdentity_def normalizePlugin_def asRecord_def
      entryRecord_def orElse_def split: option.splits)

lemma normalizePlugin_invalid:
  "\<not> validEntry e \<Longrightarrow>
     normalizePlugin e s d c = \<lparr>plugin = None, warning = Some (entryWarning s e)\<rparr>"
  by (cases e) (auto simp: validEntry_def hasIdentity_def normalizePlugin_def asRecord_def
      entryWarning_def orElse_def split: option.splits)

lemma entryWarning_nonempty: "entryWarning s e \<noteq> []"
  by (cases e) (simp_all add: entryWarning_def entryWithoutId_def nonObjectEntry_def)

lemma normalizeEntries_eq:
  "normalizeEntries es s d c ws ps =
     (ws @ map (entryWarning s) (filter (\<lambda>e. \<not> validEntry e) es),
      ps @ List.map_filter (\<lambda>e. plugin (normalizePlugin e s d c)) (filter validEntry es))"
proof (induction es arbitrary: ws ps)
  case Nil
  show ?case by (simp add: List.map_filter_simps)
next
  case (Cons e es)
  show ?case
  proof (cases "validEntry e")
    case True
    then obtain p where "normalizePlugin e s d c = \<lparr>plugin = Some p, warning = None\<rparr>"
      using normalizePlugin_valid by blast
    then show ?thesis
      using True Cons.IH by (simp add: List.map_filter_simps)
  next
    case False
    then show ?thesis
      using Cons.IH normalizePlugin_invalid [OF False]
      by (simp add: List.map_filter_simps entryWarning_nonempty)
  qed
qed

lemma map_filter_plugins:
  "map raw (List.map_filter (\<lambda>e. plugin (normalizePlugin e s d c)) (filter validEntry es)) =
     map entryRecord (filter validEntry es) \<and>
   map sourceUrl (List.map_filter (\<lambda>e. plugin (normalizePlugin e s d c)) (filter validEntry es)) =
     map (\<lambda>e. s) (filter validEntry es)"
proof (induction es)
  case Nil
  show ?case by (simp add: List.map_filter_simps)
next
  case (Cons e es)
  show ?case
  proof (cases "validEntry e")
    case True
    then obtain p where "normalizePlugin e s d c = \<lparr>plugin = Some p, warning = None\<rparr>"
      "raw p = entryRecord e" "sourceUrl p = s"
      using normalizePlugin_valid by blast
    then show ?thesis
      using True Cons.IH by (simp add: List.map_filter_simps)
  next
    case False
    then show ?thesis
      using Cons.IH by simp
  qed
qed

lemma includesStr_prefix: "includesStr (t @ b) t"
proof (cases "t @ b")
  case Nil
  then show ?thesis by simp
next
  case (Cons a l)
  have "take (length t) (t @ b) = t" by simp
  then have "take (length t) (a # l) = t" unfolding Cons .
  then show ?thesis unfolding Cons by simp
qed

lemma includesStr_append: "includesStr (a @ t @ b) t"
  by (induction a) (auto simp: includesStr_prefix)

lemma entryWarning_includes: "includesStr (entryWarning s e) s"
  by (cases e; simp only: entryWarning_def json.case entryWithoutId_def nonObjectEntry_def)
    (rule includesStr_append)+

lemma noPluginEntries_includes: "includesStr (noPluginEntries s) s"
  unfolding noPluginEntries_def by (rule includesStr_append)

text \<open>
  Claim C3, as the code has it. Let the plugin list extracted from a decoded document
  have N entries that normalize to a plugin (objects whose \<^verbatim>\<open>id\<close>, \<^verbatim>\<open>slug\<close> or
  \<^verbatim>\<open>name\<close> is a string that is not empty after trimming) and M entries that do not.
  \<open>normalizeMarketplaceDocument\<close> returns exactly N plugins, in the order of their
  entries (the field \<open>raw\<close> of each plugin is its entry), each with the given source URL,
  and an empty list of errors. If the extracted list is not empty, it returns exactly M
  warnings, one for each entry that does not normalize, in order. If the extracted list is
  empty, whether the document has no plugin list or an empty one, it returns no plugin
  and exactly one warning, that no plugin entries were found. Every warning contains the
  source URL. The result is a value for every document.
\<close>

theorem normalizeMarketplaceDocument_counts:
  "let entries = getPluginList document;
       r = normalizeMarketplaceDocument document source documentUrl' repoContext
   in length (plugins r) = length (filter validEntry entries) \<and>
      map raw (plugins r) = map entryRecord (filter validEntry entries) \<and>
      (\<forall>p \<in> set (plugins r). sourceUrl p = source) \<and>
      warnings r =
        (if entries = [] then [''No plugin entries found in '' @ source @ ''.'']
         else map (entryWarning source) (filter (\<lambda>e. \<not> validEntry e) entries)) \<and>
      (entries \<noteq> [] \<longrightarrow> length (warnings r) = length (filter (\<lambda>e. \<not> validEntry e) entries)) \<and>
      (\<forall>w \<in> set (warnings r). includesStr w source) \<and>
      errors r = []"
proof -
  define entries where "entries = getPluginList document"
  define d where "d = orDefault documentUrl' source"
  define ps where "ps = List.map_filter (\<lambda>e. plugin (normalizePlugin e source d repoContext))
    (filter validEntry entries)"
  define ws where "ws = (if entries = [] then [noPluginEntries source] else []) @
    map (entryWarning source) (filter (\<lambda>e. \<not> validEntry e) entries)"
  have r: "normalizeMarketplaceDocument document source documentUrl' repoContext =
    \<lparr>warnings = ws, errors = [], plugins = ps\<rparr>"
    by (simp add: normalizeMarketplaceDocument_def normalizeEntries_eq Let_def entries_def d_def
        ps_def ws_def)
  have raws: "map raw ps = map entryRecord (filter validEntry entries)"
    and srcs: "map sourceUrl ps = map (\<lambda>e. source) (filter validEntry entries)"
    unfolding ps_def using map_filter_plugins by blast+
  have len: "length ps = length (filter validEntry entries)"
    using raws by (metis length_map)
  have src: "\<forall>p \<in> set ps. sourceUrl p = source"
  proof
    fix p assume "p \<in> set ps"
    then have "sourceUrl p \<in> set (map sourceUrl ps)" by simp
    then show "sourceUrl p = source" unfolding srcs by auto
  qed
  have wseq: "ws = (if entries = [] then [''No plugin entries found in '' @ source @ ''.'']
         else map (entryWarning source) (filter (\<lambda>e. \<not> validEntry e) entries))"
    by (simp add: ws_def noPluginEntries_def)
  have wlen: "entries \<noteq> [] \<longrightarrow> length ws = length (filter (\<lambda>e. \<not> validEntry e) entries)"
    by (simp add: ws_def)
  have winc: "\<forall>w \<in> set ws. includesStr w source"
    by (auto simp: ws_def entryWarning_includes noPluginEntries_includes)
  show ?thesis
    unfolding Let_def r entries_def [symmetric]
    using len raws src wseq wlen winc by simp
qed

theorem normalizeMarketplaceDocument_counts_witness:
  "length (plugins (normalizeMarketplaceDocument mixedManifest ''https://m.example/x.json'' None None)) = 1 \<and>
   map raw (plugins (normalizeMarketplaceDocument mixedManifest ''https://m.example/x.json'' None None)) =
     [[(''slug'', JStr '' beta '')]] \<and>
   warnings (normalizeMarketplaceDocument mixedManifest ''https://m.example/x.json'' None None) =
     [''Skipped non-object plugin entry from https://m.example/x.json.'',
      ''Skipped plugin entry without id/name in https://m.example/x.json.''] \<and>
   errors (normalizeMarketplaceDocument mixedManifest ''https://m.example/x.json'' None None) = []"
proof -
  have e: "getPluginList mixedManifest =
    [JObj [(''slug'', JStr '' beta '')], JNum 7, JObj [(''id'', JStr ''  ''), (''skills'', JArr [])]]"
    by code_simp
  have v: "filter validEntry
    [JObj [(''slug'', JStr '' beta '')], JNum 7, JObj [(''id'', JStr ''  ''), (''skills'', JArr [])]] =
    [JObj [(''slug'', JStr '' beta '')]]"
    by code_simp
  have n: "filter (\<lambda>e. \<not> validEntry e)
    [JObj [(''slug'', JStr '' beta '')], JNum 7, JObj [(''id'', JStr ''  ''), (''skills'', JArr [])]] =
    [JNum 7, JObj [(''id'', JStr ''  ''), (''skills'', JArr [])]]"
    by code_simp
  show ?thesis
    using normalizeMarketplaceDocument_counts
      [of mixedManifest "''https://m.example/x.json''" None None]
    unfolding Let_def e v n
    by (simp add: entryWarning_def entryRecord_def entryWithoutId_def nonObjectEntry_def)
qed

text \<open>
  The claim as the specification words it gives M warnings for M entries that do not
  normalize. The document \<^verbatim>\<open>{"plugins": []}\<close> has a plugin list with no entry, so M is
  0, and the result has one warning.
\<close>

theorem normalizeMarketplaceDocument_empty_list_warns:
  "getPluginList emptyManifest = [] \<and>
   length (filter (\<lambda>e. \<not> validEntry e) (getPluginList emptyManifest)) = 0 \<and>
   length (warnings (normalizeMarketplaceDocument emptyManifest ''https://m.example/x.json'' None None)) = 1"
  by code_simp

section \<open>Aggregation of the marketplaces\<close>

lemma foldl_collect:
  "foldl collect a rs =
     \<lparr>warnings = warnings a @ concat (map settledWarnings rs),
      errors = errors a @ concat (map settledErrors rs),
      plugins = plugins a @ concat (map settledPlugins rs)\<rparr>"
proof (induction rs arbitrary: a)
  case Nil
  show ?case by simp
next
  case (Cons r rs)
  have "foldl collect a (r # rs) = foldl collect (collect a r) rs"
    by simp
  also have "\<dots> =
     \<lparr>warnings = warnings (collect a r) @ concat (map settledWarnings rs),
      errors = errors (collect a r) @ concat (map settledErrors rs),
      plugins = plugins (collect a r) @ concat (map settledPlugins rs)\<rparr>"
    by (rule Cons.IH)
  also have "\<dots> =
     \<lparr>warnings = warnings a @ concat (map settledWarnings (r # rs)),
      errors = errors a @ concat (map settledErrors (r # rs)),
      plugins = plugins a @ concat (map settledPlugins (r # rs))\<rparr>"
    by (cases r) (simp_all add: collect_def settledWarnings_def settledErrors_def
        settledPlugins_def)
  finally show ?case .
qed

lemma foldl_dedupeStep:
  "foldl dedupeStep m ps =
     m @ map (\<lambda>p. (dedupeKey p, p))
           (firstOccurrences dedupeKey (filter (\<lambda>q. dedupeKey q \<notin> fst ` set m) ps))"
proof (induction ps arbitrary: m)
  case Nil
  show ?case by simp
next
  case (Cons p ps)
  have unfold: "foldl dedupeStep m (p # ps) = foldl dedupeStep (dedupeStep m p) ps"
    by simp
  show ?case
  proof (cases "dedupeKey p \<in> fst ` set m")
    case True
    then have "dedupeStep m p = m"
      by (simp add: dedupeStep_def)
    then show ?thesis
      unfolding unfold using True by (simp add: Cons.IH)
  next
    case False
    then have step: "dedupeStep m p = m @ [(dedupeKey p, p)]"
      by (simp add: dedupeStep_def)
    have "filter (\<lambda>q. dedupeKey q \<notin> fst ` set (m @ [(dedupeKey p, p)])) ps =
      filter (\<lambda>q. dedupeKey q \<noteq> dedupeKey p) (filter (\<lambda>q. dedupeKey q \<notin> fst ` set m) ps)"
      by (induction ps) auto
    then show ?thesis
      unfolding unfold step using False by (simp add: Cons.IH)
  qed
qed

lemma dedupe_eq: "dedupe ps = firstOccurrences dedupeKey ps"
  by (simp add: dedupe_def foldl_dedupeStep comp_def)

lemma set_firstOccurrences: "set (firstOccurrences f ps) \<subseteq> set ps"
  by (induction f ps rule: firstOccurrences.induct) auto

lemma keys_firstOccurrences: "f ` set (firstOccurrences f ps) = f ` set ps"
proof (induction f ps rule: firstOccurrences.induct)
  case (1 f)
  show ?case by simp
next
  case (2 f p ps)
  then show ?case by auto
qed

lemma distinct_firstOccurrences: "distinct (map f (firstOccurrences f ps))"
proof (induction f ps rule: firstOccurrences.induct)
  case (1 f)
  show ?case by simp
next
  case (2 f p ps)
  have "f p \<notin> f ` set (firstOccurrences f (filter (\<lambda>q. f q \<noteq> f p) ps))"
    using set_firstOccurrences [of f "filter (\<lambda>q. f q \<noteq> f p) ps"] by auto
  then show ?case using 2 by simp
qed

lemma find_firstOccurrences:
  "p \<in> set (firstOccurrences f ps) \<Longrightarrow> find (\<lambda>q. f q = f p) ps = Some p"
proof (induction f ps rule: firstOccurrences.induct)
  case (1 f)
  then show ?case by simp
next
  case (2 f x ps)
  show ?case
  proof (cases "p = x")
    case True
    then show ?thesis by simp
  next
    case False
    then have m: "p \<in> set (firstOccurrences f (filter (\<lambda>q. f q \<noteq> f x) ps))"
      using 2(2) by simp
    then have "p \<in> set (filter (\<lambda>q. f q \<noteq> f x) ps)"
      using set_firstOccurrences by fastforce
    then have ne: "f p \<noteq> f x" by simp
    have "find (\<lambda>q. f q = f p) (filter (\<lambda>q. f q \<noteq> f x) ps) = Some p"
      using 2(1) m by simp
    moreover have "find (\<lambda>q. f q = f p) (filter (\<lambda>q. f q \<noteq> f x) ps) = find (\<lambda>q. f q = f p) ps"
      using ne by (induction ps) auto
    ultimately show ?thesis using ne by simp
  qed
qed

lemma firstOccurrences_cong:
  "(\<forall>p \<in> set ps. \<forall>q \<in> set ps. (f p = f q) = (g p = g q)) \<Longrightarrow>
     firstOccurrences f ps = firstOccurrences g ps"
proof (induction f ps rule: firstOccurrences.induct)
  case (1 f)
  show ?case by simp
next
  case (2 f p ps)
  have eq: "filter (\<lambda>q. f q \<noteq> f p) ps = filter (\<lambda>q. g q \<noteq> g p) ps"
    using 2(2) by (intro filter_cong) auto
  have "firstOccurrences f (filter (\<lambda>q. f q \<noteq> f p) ps) =
        firstOccurrences g (filter (\<lambda>q. f q \<noteq> f p) ps)"
    using 2(2) by (intro 2(1)) auto
  then show ?case by (simp add: eq)
qed

lemma find_weaken:
  "find P xs = Some p \<Longrightarrow> Q p \<Longrightarrow> (\<And>q. Q q \<Longrightarrow> P q) \<Longrightarrow> find Q xs = Some p"
  by (induction xs) (auto split: if_splits)

lemma idAndSource_dedupeKey: "idAndSource p = idAndSource q \<Longrightarrow> dedupeKey p = dedupeKey q"
  by (simp add: idAndSource_def dedupeKey_def)

lemma distinct_map_coarser:
  assumes "distinct (map f xs)" and coarser: "\<And>x y. g x = g y \<Longrightarrow> f x = f y"
  shows "distinct (map g xs)"
  using assms(1)
proof (induction xs)
  case Nil
  show ?case by simp
next
  case (Cons x xs)
  have "g x \<notin> g ` set xs"
  proof
    assume "g x \<in> g ` set xs"
    then obtain y where y: "y \<in> set xs" and gy: "g x = g y"
      by blast
    have "f x = f y"
      using gy by (rule coarser)
    then have "f x \<in> f ` set xs"
      using y by (rule image_eqI)
    then show False
      using Cons.prems by simp
  qed
  then show ?case
    using Cons by simp
qed

lemma mset_insertSorted: "mset (insertSorted c x ys) = add_mset x (mset ys)"
  by (induction ys) auto

lemma mset_sortWith: "mset (sortWith c xs) = mset xs"
  by (induction xs) (auto simp: sortWith_def mset_insertSorted)

lemma set_insertSorted: "set (insertSorted c x ys) = insert x (set ys)"
  by (induction ys) auto

lemma sorted_insertSorted:
  "consistent c \<Longrightarrow> sorted_wrt (\<lambda>a b. c a b \<le> 0) ys \<Longrightarrow>
     sorted_wrt (\<lambda>a b. c a b \<le> 0) (insertSorted c x ys)"
proof (induction ys)
  case Nil
  show ?case by simp
next
  case (Cons y ys)
  have total: "\<And>a b. c a b \<le> 0 \<or> c b a \<le> 0"
    and trans: "\<And>a b d. c a b \<le> 0 \<Longrightarrow> c b d \<le> 0 \<Longrightarrow> c a d \<le> 0"
    using Cons.prems(1) unfolding consistent_def by blast+
  show ?case
  proof (cases "c x y \<le> 0")
    case True
    then have "\<forall>z \<in> set ys. c x z \<le> 0"
      using Cons.prems(2) trans by auto
    then show ?thesis using True Cons.prems(2) by simp
  next
    case False
    then have "c y x \<le> 0" using total by blast
    then show ?thesis
      using False Cons by (auto simp: set_insertSorted)
  qed
qed

lemma sorted_sortWith:
  "consistent c \<Longrightarrow> sorted_wrt (\<lambda>a b. c a b \<le> 0) (sortWith c xs)"
  by (induction xs) (auto simp: sortWith_def sorted_insertSorted)

lemma consistent_on_names:
  "consistent c \<Longrightarrow> consistent (\<lambda>left right. c (name left) (name right))"
  unfolding consistent_def by blast

lemma fetchAllMarketplaces_eq:
  "fetchAllMarketplaces localeCompare results =
     \<lparr>warnings = concat (map settledWarnings results),
      errors = concat (map settledErrors results),
      plugins = sortWith (\<lambda>left right. localeCompare (name left) (name right))
                  (firstOccurrences dedupeKey (concat (map settledPlugins results)))\<rparr>"
  unfolding fetchAllMarketplaces_def Let_def foldl_collect dedupe_eq by simp

lemma kept_distinct:
  "distinct (map idAndSource (sortWith c (firstOccurrences dedupeKey ps)))"
proof -
  have d: "distinct (map idAndSource (firstOccurrences dedupeKey ps))"
    by (rule distinct_map_coarser [OF distinct_firstOccurrences idAndSource_dedupeKey])
  have "mset (map idAndSource (sortWith c (firstOccurrences dedupeKey ps))) =
      mset (map idAndSource (firstOccurrences dedupeKey ps))"
    unfolding mset_map mset_sortWith by (rule refl)
  then have "distinct (map idAndSource (sortWith c (firstOccurrences dedupeKey ps))) =
      distinct (map idAndSource (firstOccurrences dedupeKey ps))"
    by (rule mset_eq_imp_distinct_iff)
  then show ?thesis
    using d by (rule iffD2)
qed

lemma kept_first:
  assumes "p \<in> set (sortWith c (firstOccurrences dedupeKey ps))"
  shows "find (\<lambda>q. idAndSource q = idAndSource p) ps = Some p"
proof -
  have "set (sortWith c (firstOccurrences dedupeKey ps)) = set (firstOccurrences dedupeKey ps)"
    by (rule mset_eq_setD) (rule mset_sortWith)
  then have "p \<in> set (firstOccurrences dedupeKey ps)"
    using assms by simp
  then have "find (\<lambda>q. dedupeKey q = dedupeKey p) ps = Some p"
    by (rule find_firstOccurrences)
  then show ?thesis
  proof (rule find_weaken [where Q = "\<lambda>q. idAndSource q = idAndSource p"])
    show "idAndSource p = idAndSource p"
      by (rule refl)
    show "\<And>q. idAndSource q = idAndSource p \<Longrightarrow> dedupeKey q = dedupeKey p"
      by (rule idAndSource_dedupeKey)
  qed
qed

lemma kept_by_pair:
  assumes "\<forall>p \<in> set ps. \<forall>q \<in> set ps. dedupeKey p = dedupeKey q \<longrightarrow> idAndSource p = idAndSource q"
  shows "mset (sortWith c (firstOccurrences dedupeKey ps)) = mset (firstOccurrences idAndSource ps)"
proof -
  have "\<forall>p \<in> set ps. \<forall>q \<in> set ps. (dedupeKey p = dedupeKey q) = (idAndSource p = idAndSource q)"
    using assms idAndSource_dedupeKey by blast
  then have "firstOccurrences dedupeKey ps = firstOccurrences idAndSource ps"
    by (rule firstOccurrences_cong)
  then show ?thesis
    by (simp only: mset_sortWith)
qed

lemma kept_sorted:
  assumes "consistent localeCompare"
  shows "sorted_wrt (\<lambda>left right. localeCompare (name left) (name right) \<le> 0)
     (sortWith (\<lambda>left right. localeCompare (name left) (name right)) ps)"
  using consistent_on_names [OF assms] by (rule sorted_sortWith)

lemma codeUnitCompare_total: "codeUnitCompare a b \<le> 0 \<or> codeUnitCompare b a \<le> 0"
  by (induction a b rule: codeUnitCompare.induct) auto

lemma codeUnitCompare_step:
  "codeUnitCompare (x # xs) (y # ys) \<le> 0 \<Longrightarrow>
     (of_char x :: nat) < of_char y \<or>
     ((of_char x :: nat) = of_char y \<and> codeUnitCompare xs ys \<le> 0)"
  by (simp split: if_splits)

lemma codeUnitCompare_trans:
  "codeUnitCompare a b \<le> 0 \<Longrightarrow> codeUnitCompare b c \<le> 0 \<Longrightarrow> codeUnitCompare a c \<le> 0"
proof (induction a b arbitrary: c rule: codeUnitCompare.induct)
  case 1
  then show ?case by simp
next
  case (2 y ys)
  then show ?case by (cases c) simp_all
next
  case (3 x xs)
  then show ?case by simp
next
  case (4 x xs y ys)
  show ?case
  proof (cases c)
    case Nil
    then show ?thesis using 4(3) by simp
  next
    case (Cons z zs)
    have xy: "(of_char x :: nat) < of_char y \<or>
        ((of_char x :: nat) = of_char y \<and> codeUnitCompare xs ys \<le> 0)"
      using 4(2) by (rule codeUnitCompare_step)
    have yz: "(of_char y :: nat) < of_char z \<or>
        ((of_char y :: nat) = of_char z \<and> codeUnitCompare ys zs \<le> 0)"
      using 4(3) unfolding Cons by (rule codeUnitCompare_step)
    consider (less) "(of_char x :: nat) < of_char z"
      | (equal) "(of_char x :: nat) = of_char y" "(of_char y :: nat) = of_char z"
          "codeUnitCompare xs ys \<le> 0" "codeUnitCompare ys zs \<le> 0"
      using xy yz by linarith
    then show ?thesis
    proof cases
      case less
      then show ?thesis unfolding Cons by simp
    next
      case equal
      have n1: "\<not> (of_char x :: nat) < of_char y"
        unfolding equal(1) by simp
      have n2: "\<not> (of_char y :: nat) < of_char x"
        unfolding equal(1) by simp
      have "codeUnitCompare xs zs \<le> 0"
        using n1 n2 equal(3) equal(4) by (rule 4(1))
      then show ?thesis
        unfolding Cons codeUnitCompare.simps equal(1) equal(2) by simp
    qed
  qed
qed

lemma consistent_codeUnitCompare: "consistent codeUnitCompare"
  unfolding consistent_def using codeUnitCompare_total codeUnitCompare_trans by blast

text \<open>
  What \<open>fetchAllMarketplaces\<close> keeps, for every list of settled results: for each key
  string (the id, \<^verbatim>\<open>::\<close> and the source URL), the first plugin of the concatenation
  with that key. So the result has at most one plugin for each pair of id and source URL,
  and a plugin of the result is the first one with its pair. Where plugins with equal keys
  have equal pairs, and only there, this is the first plugin of every pair. The kept
  plugins are in ascending order of their names for a consistent comparator, and the
  warnings and errors are those of the settled results.
\<close>

lemma fetchAllMarketplaces_survivors:
  "let allPlugins = concat (map settledPlugins results);
       r = fetchAllMarketplaces localeCompare results
   in mset (plugins r) = mset (firstOccurrences dedupeKey allPlugins) \<and>
      distinct (map idAndSource (plugins r)) \<and>
      (\<forall>p \<in> set (plugins r). find (\<lambda>q. idAndSource q = idAndSource p) allPlugins = Some p) \<and>
      ((\<forall>p \<in> set allPlugins. \<forall>q \<in> set allPlugins.
          dedupeKey p = dedupeKey q \<longrightarrow> idAndSource p = idAndSource q) \<longrightarrow>
       mset (plugins r) = mset (firstOccurrences idAndSource allPlugins)) \<and>
      (consistent localeCompare \<longrightarrow>
       sorted_wrt (\<lambda>left right. localeCompare (name left) (name right) \<le> 0) (plugins r)) \<and>
      warnings r = concat (map settledWarnings results) \<and>
      errors r = concat (map settledErrors results)"
proof -
  let ?all = "concat (map settledPlugins results)"
  let ?kept = "sortWith (\<lambda>left right. localeCompare (name left) (name right))
    (firstOccurrences dedupeKey ?all)"
  have 1: "mset ?kept = mset (firstOccurrences dedupeKey ?all)"
    by (rule mset_sortWith)
  have 2: "distinct (map idAndSource ?kept)"
    by (rule kept_distinct)
  have 3: "\<forall>p \<in> set ?kept. find (\<lambda>q. idAndSource q = idAndSource p) ?all = Some p"
    using kept_first by blast
  have 4: "(\<forall>p \<in> set ?all. \<forall>q \<in> set ?all.
          dedupeKey p = dedupeKey q \<longrightarrow> idAndSource p = idAndSource q) \<longrightarrow>
       mset ?kept = mset (firstOccurrences idAndSource ?all)"
    using kept_by_pair by blast
  have 5: "consistent localeCompare \<longrightarrow>
       sorted_wrt (\<lambda>left right. localeCompare (name left) (name right) \<le> 0) ?kept"
    using kept_sorted by blast
  show ?thesis
    unfolding Let_def fetchAllMarketplaces_eq MarketplaceFetchResult.select_convs
      diagnostics.select_convs
    by (intro conjI 1 2 3 4 5 refl)
qed

lemma fetchAllMarketplaces_survivors_example:
  "plugins (fetchAllMarketplaces codeUnitCompare exampleResults) =
     [examplePlugin ''a'' ''Alpha'' ''https://one.example/m.json'',
      examplePlugin ''b'' ''Beta'' ''https://three.example/m.json'',
      examplePlugin ''z'' ''Zeta'' ''https://one.example/m.json''] \<and>
   mset (plugins (fetchAllMarketplaces codeUnitCompare exampleResults)) =
     mset (firstOccurrences idAndSource (concat (map settledPlugins exampleResults))) \<and>
   sorted_wrt (\<lambda>left right. codeUnitCompare (name left) (name right) \<le> 0)
     (plugins (fetchAllMarketplaces codeUnitCompare exampleResults)) \<and>
   warnings (fetchAllMarketplaces codeUnitCompare exampleResults) = [''w1''] \<and>
   errors (fetchAllMarketplaces codeUnitCompare exampleResults) =
     [''Marketplace fetch failed: timeout'', ''e3'']"
proof -
  have v: "plugins (fetchAllMarketplaces codeUnitCompare exampleResults) =
     [examplePlugin ''a'' ''Alpha'' ''https://one.example/m.json'',
      examplePlugin ''b'' ''Beta'' ''https://three.example/m.json'',
      examplePlugin ''z'' ''Zeta'' ''https://one.example/m.json'']"
    by code_simp
  have n: "\<forall>p \<in> set (concat (map settledPlugins exampleResults)).
           \<forall>q \<in> set (concat (map settledPlugins exampleResults)).
      dedupeKey p = dedupeKey q \<longrightarrow> idAndSource p = idAndSource q"
    by code_simp
  have w: "concat (map settledWarnings exampleResults) = [''w1'']"
    by code_simp
  have e: "concat (map settledErrors exampleResults) = [''Marketplace fetch failed: timeout'', ''e3'']"
    by code_simp
  show ?thesis
    using fetchAllMarketplaces_survivors [of exampleResults codeUnitCompare]
      consistent_codeUnitCompare n v
    unfolding Let_def w e by blast
qed

text \<open>
  Claim C4 asks that \<open>fetchAllMarketplaces\<close> deduplicates the concatenated plugins by
  the pair of id and source URL, the first occurrence of a pair winning, so that only
  later repetitions of a pair are discarded. The code compares the strings made of the
  id, \<^verbatim>\<open>::\<close> and the source URL, and these can be equal for two distinct pairs. For
  the two marketplaces of \<open>maskingResults\<close> the two plugins have distinct pairs, so
  that deduplication by pair keeps both; they have the same key, and the code returns the
  first plugin only, with no warning and no error, under every comparator.
\<close>

theorem fetchAllMarketplaces_drops_distinct_pair:
  "idAndSource maskingPlugin \<noteq> idAndSource maskedPlugin \<and>
   firstOccurrences idAndSource (concat (map settledPlugins maskingResults)) =
     [maskingPlugin, maskedPlugin] \<and>
   dedupeKey maskingPlugin = dedupeKey maskedPlugin \<and>
   fetchAllMarketplaces localeCompare maskingResults =
     \<lparr>warnings = [], errors = [], plugins = [maskingPlugin]\<rparr>"
proof -
  have k: "dedupeKey maskingPlugin = dedupeKey maskedPlugin"
    by code_simp
  have i: "idAndSource maskingPlugin \<noteq> idAndSource maskedPlugin"
    by code_simp
  have f: "firstOccurrences idAndSource (concat (map settledPlugins maskingResults)) =
     [maskingPlugin, maskedPlugin]"
    using i by (simp add: maskingResults_def settledPlugins_def)
  have "dedupe [maskingPlugin, maskedPlugin] = [maskingPlugin]"
    by (simp add: dedupe_def dedupeStep_def k)
  then have "fetchAllMarketplaces localeCompare maskingResults =
     \<lparr>warnings = [], errors = [], plugins = [maskingPlugin]\<rparr>"
    by (simp add: fetchAllMarketplaces_def maskingResults_def collect_def sortWith_def)
  then show ?thesis
    using k i f by simp
qed

text \<open>
  Claim C10. The key of the aggregator's deduplication is the concatenation of the id,
  \<^verbatim>\<open>::\<close> and the source URL. The plugin with id \<^verbatim>\<open>a::b\<close> and source URL \<^verbatim>\<open>c\<close>
  and the plugin with id \<^verbatim>\<open>a\<close> and source URL \<^verbatim>\<open>b::c\<close> have distinct pairs of id and
  source URL and the same key, and \<open>fetchAllMarketplaces\<close> returns the first of them
  only, with no warning and no error, under every comparator.
\<close>

theorem dedupeKey_collision:
  "idAndSource collidingFirst \<noteq> idAndSource collidingSecond \<and>
   dedupeKey collidingFirst = dedupeKey collidingSecond \<and>
   fetchAllMarketplaces localeCompare
     [Fulfilled \<lparr>warnings = [], errors = [], plugins = [collidingFirst]\<rparr>,
      Fulfilled \<lparr>warnings = [], errors = [], plugins = [collidingSecond]\<rparr>] =
     \<lparr>warnings = [], errors = [], plugins = [collidingFirst]\<rparr>"
proof -
  have k: "dedupeKey collidingFirst = dedupeKey collidingSecond"
    by code_simp
  have i: "idAndSource collidingFirst \<noteq> idAndSource collidingSecond"
    by code_simp
  have "dedupe [collidingFirst, collidingSecond] = [collidingFirst]"
    by (simp add: dedupe_def dedupeStep_def k)
  then have "fetchAllMarketplaces localeCompare
     [Fulfilled \<lparr>warnings = [], errors = [], plugins = [collidingFirst]\<rparr>,
      Fulfilled \<lparr>warnings = [], errors = [], plugins = [collidingSecond]\<rparr>] =
     \<lparr>warnings = [], errors = [], plugins = [collidingFirst]\<rparr>"
    by (simp add: fetchAllMarketplaces_def collect_def sortWith_def)
  then show ?thesis using k i by simp
qed

section \<open>Reads, refreshes and persistence of the cache\<close>

lemma persistToStorage_fields [simp]:
  "memoryCache (persistToStorage c) = memoryCache c"
  "pendingRefreshes (persistToStorage c) = pendingRefreshes c"
  "config (persistToStorage c) = config c"
  "fetched (persistToStorage c) = fetched c"
  "background (persistToStorage c) = background c"
  by (simp_all add: persistToStorage_def)

lemma set'_fields [simp]:
  "memoryCache (set' now k d tag c) =
     AList.update k \<lparr>data = d, timestamp = now, etag = tag\<rparr> (memoryCache c)"
  "pendingRefreshes (set' now k d tag c) = pendingRefreshes c"
  "config (set' now k d tag c) = config c"
  "fetched (set' now k d tag c) = fetched c"
  "background (set' now k d tag c) = background c"
  by (simp_all add: set'_def)

text \<open>
  Claim C5. Let an entry be stored by \<open>set\<close> at time T in a cache whose configuration
  has a \<open>freshTTL\<close> F smaller than its \<open>staleTTL\<close> S. A \<open>get\<close> of its key at time
  T + F - 1 returns its data with \<open>isFresh\<close> true. A \<open>get\<close> at any time strictly
  between T + F and T + S returns its data with \<open>isFresh\<close> false. Neither changes the
  cache. A \<open>get\<close> at time T + S + 1 returns undefined and leaves a cache map without the
  key. In every cache, a \<open>get\<close> of a key with no entry returns undefined and changes
  nothing.
\<close>

theorem get_after_set:
  assumes "freshTTL (config c) < staleTTL (config c)"
  shows "let F = freshTTL (config c); S = staleTTL (config c); c1 = set' T k d tag c
    in get (T + F - 1) k c1 = (Some \<lparr>data = d, isFresh = True\<rparr>, c1) \<and>
       (\<forall>t. T + F < t \<and> t < T + S \<longrightarrow> get t k c1 = (Some \<lparr>data = d, isFresh = False\<rparr>, c1)) \<and>
       fst (get (T + S + 1) k c1) = None \<and>
       map_of (memoryCache (snd (get (T + S + 1) k c1))) k = None \<and>
       (\<forall>(c' :: 'a MarketplaceCache) k' t.
          map_of (memoryCache c') k' = None \<longrightarrow> get t k' c' = (None, c'))"
proof -
  define c1 where "c1 = set' T k d tag c"
  have e: "map_of (memoryCache c1) k = Some \<lparr>data = d, timestamp = T, etag = tag\<rparr>"
    by (simp add: c1_def update_conv')
  have cfg: "config c1 = config c"
    by (simp add: c1_def)
  have 1: "get (T + freshTTL (config c) - 1) k c1 = (Some \<lparr>data = d, isFresh = True\<rparr>, c1)"
    using assms by (simp add: get_def e cfg)
  have 2: "\<forall>t. T + freshTTL (config c) < t \<and> t < T + staleTTL (config c) \<longrightarrow>
      get t k c1 = (Some \<lparr>data = d, isFresh = False\<rparr>, c1)"
    by (simp add: get_def e cfg)
  have 3: "fst (get (T + staleTTL (config c) + 1) k c1) = None"
    by (simp add: get_def e cfg)
  have 4: "map_of (memoryCache (snd (get (T + staleTTL (config c) + 1) k c1))) k = None"
    by (simp add: get_def e cfg delete_conv')
  have 5: "\<forall>c' :: 'a MarketplaceCache. \<forall>k' t. map_of (memoryCache c') k' = None \<longrightarrow> get t k' c' = (None, c')"
    by (simp add: get_def)
  show ?thesis
    unfolding Let_def c1_def [symmetric] by (intro conjI 1 2 3 4 5)
qed

lemma exampleCache_eq:
  "exampleCache =
     \<lparr>memoryCache = [], pendingRefreshes = [],
      config = \<lparr>freshTTL = 300000, staleTTL = 3600000\<rparr>,
      globalState = None, fetched = [], background = []\<rparr>"
  by (simp add: exampleCache_def newCache_def loadFromStorage_def mergeConfig_def DEFAULT_CONFIG_def)

theorem get_after_set_witness:
  "get 300999 ''k'' (set' 1000 ''k'' ''v'' None exampleCache) =
     (Some \<lparr>data = ''v'', isFresh = True\<rparr>, set' 1000 ''k'' ''v'' None exampleCache) \<and>
   get 301001 ''k'' (set' 1000 ''k'' ''v'' None exampleCache) =
     (Some \<lparr>data = ''v'', isFresh = False\<rparr>, set' 1000 ''k'' ''v'' None exampleCache) \<and>
   fst (get 3601001 ''k'' (set' 1000 ''k'' ''v'' None exampleCache)) = None \<and>
   map_of (memoryCache (snd (get 3601001 ''k'' (set' 1000 ''k'' ''v'' None exampleCache)))) ''k'' = None \<and>
   get 5 ''missing'' exampleCache = (None, exampleCache)"
proof -
  have f: "freshTTL (config exampleCache) = 300000"
    and s: "staleTTL (config exampleCache) = 3600000"
    and m: "map_of (memoryCache exampleCache) ''missing'' = None"
    by (simp_all add: exampleCache_eq)
  have lt: "freshTTL (config exampleCache) < staleTTL (config exampleCache)"
    by (simp add: f s)
  note th = get_after_set [OF lt, of 1000 "''k''" "''v''" None, unfolded Let_def f s]
  have 1: "get 300999 ''k'' (set' 1000 ''k'' ''v'' None exampleCache) =
     (Some \<lparr>data = ''v'', isFresh = True\<rparr>, set' 1000 ''k'' ''v'' None exampleCache)"
    using th [THEN conjunct1] by simp
  have 2: "get 301001 ''k'' (set' 1000 ''k'' ''v'' None exampleCache) =
     (Some \<lparr>data = ''v'', isFresh = False\<rparr>, set' 1000 ''k'' ''v'' None exampleCache)"
    using th [THEN conjunct2, THEN conjunct1, rule_format, of 301001] by simp
  have 3: "fst (get 3601001 ''k'' (set' 1000 ''k'' ''v'' None exampleCache)) = None"
    using th [THEN conjunct2, THEN conjunct2, THEN conjunct1] by simp
  have 4: "map_of (memoryCache (snd (get 3601001 ''k'' (set' 1000 ''k'' ''v'' None exampleCache))))
      ''k'' = None"
    using th [THEN conjunct2, THEN conjunct2, THEN conjunct2, THEN conjunct1] by simp
  have 5: "get 5 ''missing'' exampleCache = (None, exampleCache)"
    using th [THEN conjunct2, THEN conjunct2, THEN conjunct2, THEN conjunct2, rule_format,
        of exampleCache "''missing''" 5] m
    by simp
  show ?thesis
    by (intro conjI 1 2 3 4 5)
qed

text \<open>
  Claim C6. Let a key have an entry that \<open>get\<close> still returns at time \<open>now\<close> (its age
  is at most \<open>staleTTL\<close>), and let no forced refresh be requested. If the entry is fresh
  (its age is at most \<open>freshTTL\<close>), \<open>getWithRefresh\<close> returns its data with
  \<open>fromCache\<close> true and \<open>refreshing\<close> false without suspending, and the cache is
  unchanged, its list of fetcher invocations included. If the entry is stale (older than
  \<open>freshTTL\<close>), \<open>getWithRefresh\<close> returns its data with \<open>fromCache\<close> true and
  \<open>refreshing\<close> true without suspending, and has called \<open>refreshInBackground\<close>: the
  key is marked as refreshing, the cache map is unchanged, and the fetcher has been
  invoked once unless a refresh of the key was pending already.
\<close>

theorem getWithRefresh_cached:
  assumes "map_of (memoryCache c) k = Some entry"
    and "now - timestamp entry \<le> staleTTL (config c)"
    and "options = None \<or> options = Some False"
  shows "(now - timestamp entry \<le> freshTTL (config c) \<longrightarrow>
            getWithRefresh_begin now k options c =
              (Returned \<lparr>data = data entry, fromCache = True, refreshing = False\<rparr>, c)) \<and>
         (freshTTL (config c) < now - timestamp entry \<longrightarrow>
            getWithRefresh_begin now k options c =
              (Returned \<lparr>data = data entry, fromCache = True, refreshing = True\<rparr>,
               refreshInBackground k c) \<and>
            isRefreshing k (refreshInBackground k c) \<and>
            memoryCache (refreshInBackground k c) = memoryCache c \<and>
            (\<not> isRefreshing k c \<longrightarrow> fetched (refreshInBackground k c) = fetched c @ [k]) \<and>
            (isRefreshing k c \<longrightarrow> refreshInBackground k c = c))"
proof -
  have g: "get now k c =
    (Some \<lparr>data = data entry, isFresh = (now - timestamp entry \<le> freshTTL (config c))\<rparr>, c)"
    using assms(1,2) by (simp add: get_def)
  have o: "orDefault options False = False"
    using assms(3) by (auto simp: orDefault_def)
  have 1: "now - timestamp entry \<le> freshTTL (config c) \<longrightarrow>
            getWithRefresh_begin now k options c =
              (Returned \<lparr>data = data entry, fromCache = True, refreshing = False\<rparr>, c)"
    by (simp add: getWithRefresh_begin_def g o)
  have 2: "freshTTL (config c) < now - timestamp entry \<longrightarrow>
            getWithRefresh_begin now k options c =
              (Returned \<lparr>data = data entry, fromCache = True, refreshing = True\<rparr>,
               refreshInBackground k c)"
    by (simp add: getWithRefresh_begin_def g o)
  have 3: "isRefreshing k (refreshInBackground k c)"
    by (simp add: isRefreshing_def refreshInBackground_def fetchAndCache_invoke_def Let_def)
  have 4: "memoryCache (refreshInBackground k c) = memoryCache c"
    by (simp add: refreshInBackground_def fetchAndCache_invoke_def Let_def)
  have 5: "\<not> isRefreshing k c \<longrightarrow> fetched (refreshInBackground k c) = fetched c @ [k]"
    by (simp add: isRefreshing_def refreshInBackground_def fetchAndCache_invoke_def Let_def)
  have 6: "isRefreshing k c \<longrightarrow> refreshInBackground k c = c"
    by (simp add: isRefreshing_def refreshInBackground_def)
  show ?thesis
    using 1 2 3 4 5 6 by blast
qed

lemma getWithRefresh_resume_failure:
  "getWithRefresh_resume later k cached (Inl reason) c1 =
     ((case cached of
         Some hit \<Rightarrow> Inr \<lparr>data = data hit, fromCache = True, refreshing = False\<rparr>
       | None \<Rightarrow> Inl reason), c1)"
  by (simp add: getWithRefresh_resume_def fetchAndCache_settled_def split: option.splits)

lemma getWithRefresh_begin_awaits:
  "fst (get now k c) = None \<or> options = Some True \<Longrightarrow>
     getWithRefresh_begin now k options c =
       (Awaiting (fst (get now k c)), fetchAndCache_invoke k (snd (get now k c)))"
  by (cases "get now k c")
    (auto simp: getWithRefresh_begin_def orDefault_def split: option.splits)

lemma get_keeps_state:
  "map_of (memoryCache c) k = None \<or> fst (get now k c) \<noteq> None \<Longrightarrow> snd (get now k c) = c"
  by (auto simp: get_def Let_def split: option.splits if_splits)

text \<open>
  Claim C7. When the fetcher of a synchronous fetch fails, the rest of \<open>getWithRefresh\<close>
  returns the data that it holds from the cache, with \<open>fromCache\<close> true, if it holds
  one, and throws the fetcher's failure otherwise; it leaves the cache as it finds it. For
  a whole call that finds no entry with \<open>get\<close> or is asked for a forced refresh: the
  outcome is the cached data with \<open>fromCache\<close> true if \<open>get\<close> returned an entry, and
  the fetcher's failure if not; the cache map and the memento are as \<open>get\<close> left them,
  and they are as before the call when the key had no entry at all or had one that
  \<open>get\<close> returned (an entry older than \<open>staleTTL\<close> counts as absent and \<open>get\<close>
  evicts it).
\<close>

theorem getWithRefresh_fetch_fails:
  fixes c c1 :: "'a MarketplaceCache"
  shows "getWithRefresh_resume later k cached (Inl reason) c1 =
     ((case cached of
         Some hit \<Rightarrow> Inr \<lparr>data = data hit, fromCache = True, refreshing = False\<rparr>
       | None \<Rightarrow> Inl reason), c1) \<and>
   (fst (get now k c) = None \<or> options = Some True \<longrightarrow>
      getWithRefresh now later k (Inl reason) options c =
        ((case fst (get now k c) of
            Some hit \<Rightarrow> Inr \<lparr>data = data hit, fromCache = True, refreshing = False\<rparr>
          | None \<Rightarrow> Inl reason),
         fetchAndCache_invoke k (snd (get now k c))) \<and>
      memoryCache (snd (getWithRefresh now later k (Inl reason) options c)) =
        memoryCache (snd (get now k c)) \<and>
      globalState (snd (getWithRefresh now later k (Inl reason) options c)) =
        globalState (snd (get now k c)) \<and>
      (map_of (memoryCache c) k = None \<or> fst (get now k c) \<noteq> None \<longrightarrow>
         memoryCache (snd (getWithRefresh now later k (Inl reason) options c)) = memoryCache c \<and>
         globalState (snd (getWithRefresh now later k (Inl reason) options c)) = globalState c))"
proof (intro conjI impI)
  show "getWithRefresh_resume later k cached (Inl reason) c1 =
     ((case cached of
         Some hit \<Rightarrow> Inr \<lparr>data = data hit, fromCache = True, refreshing = False\<rparr>
       | None \<Rightarrow> Inl reason), c1)"
    by (rule getWithRefresh_resume_failure)
next
  assume a: "fst (get now k c) = None \<or> options = Some True"
  show w: "getWithRefresh now later k (Inl reason) options c =
        ((case fst (get now k c) of
            Some hit \<Rightarrow> Inr \<lparr>data = data hit, fromCache = True, refreshing = False\<rparr>
          | None \<Rightarrow> Inl reason),
         fetchAndCache_invoke k (snd (get now k c)))"
    by (simp add: getWithRefresh_def getWithRefresh_begin_awaits [OF a]
        getWithRefresh_resume_failure)
  show m: "memoryCache (snd (getWithRefresh now later k (Inl reason) options c)) =
        memoryCache (snd (get now k c))"
    by (simp add: w fetchAndCache_invoke_def)
  show g: "globalState (snd (getWithRefresh now later k (Inl reason) options c)) =
        globalState (snd (get now k c))"
    by (simp add: w fetchAndCache_invoke_def)
  assume "map_of (memoryCache c) k = None \<or> fst (get now k c) \<noteq> None"
  then have u: "snd (get now k c) = c"
    by (rule get_keeps_state)
  show "memoryCache (snd (getWithRefresh now later k (Inl reason) options c)) = memoryCache c"
    using m by (simp add: u)
  show "globalState (snd (getWithRefresh now later k (Inl reason) options c)) = globalState c"
    using g by (simp add: u)
qed

theorem getWithRefresh_cached_witness:
  "getWithRefresh_begin 2000 ''k'' None filledCache =
     (Returned \<lparr>data = ''v'', fromCache = True, refreshing = False\<rparr>, filledCache) \<and>
   getWithRefresh_begin 400000 ''k'' (Some False) filledCache =
     (Returned \<lparr>data = ''v'', fromCache = True, refreshing = True\<rparr>,
      refreshInBackground ''k'' filledCache) \<and>
   isRefreshing ''k'' (refreshInBackground ''k'' filledCache) \<and>
   fetched (refreshInBackground ''k'' filledCache) = [''k'']"
proof -
  have e: "map_of (memoryCache filledCache) ''k'' = Some \<lparr>data = ''v'', timestamp = 1000, etag = None\<rparr>"
    by (simp add: filledCache_def update_conv')
  have f: "freshTTL (config filledCache) = 300000"
    and s: "staleTTL (config filledCache) = 3600000"
    and p: "\<not> isRefreshing ''k'' filledCache"
    and l: "fetched filledCache = []"
    by (simp_all add: filledCache_def exampleCache_eq isRefreshing_def)
  have "2000 - timestamp \<lparr>data = ''v'', timestamp = 1000, etag = None\<rparr> \<le> staleTTL (config filledCache)"
    by (simp add: s)
  note fresh = getWithRefresh_cached [OF e this, of None, unfolded f s]
  have "400000 - timestamp \<lparr>data = ''v'', timestamp = 1000, etag = None\<rparr> \<le> staleTTL (config filledCache)"
    by (simp add: s)
  note stale = getWithRefresh_cached [OF e this, of "Some False", unfolded f s]
  show ?thesis
    using fresh stale p l by simp
qed

theorem getWithRefresh_fetch_fails_witness:
  "getWithRefresh 0 50 ''k'' (Inl ''offline'') None exampleCache =
     (Inl ''offline'', fetchAndCache_invoke ''k'' exampleCache) \<and>
   getWithRefresh 2000 2050 ''k'' (Inl ''offline'') (Some True) filledCache =
     (Inr \<lparr>data = ''v'', fromCache = True, refreshing = False\<rparr>,
      fetchAndCache_invoke ''k'' filledCache) \<and>
   memoryCache (snd (getWithRefresh 2000 2050 ''k'' (Inl ''offline'') (Some True) filledCache)) =
     memoryCache filledCache"
proof -
  have g0: "get 0 ''k'' exampleCache = (None, exampleCache)"
    by (simp add: get_def exampleCache_eq)
  have g1: "get 2000 ''k'' filledCache = (Some \<lparr>data = ''v'', isFresh = True\<rparr>, filledCache)"
    by (simp add: get_def filledCache_def update_conv' exampleCache_eq)
  show ?thesis
    using getWithRefresh_fetch_fails [where later = 50 and k = "''k''" and cached = None
        and reason = "''offline''" and ?c1.0 = exampleCache and now = 0 and options = None
        and c = exampleCache]
      getWithRefresh_fetch_fails [where later = 2050 and k = "''k''" and cached = None
        and reason = "''offline''" and ?c1.0 = exampleCache and now = 2000
        and options = "Some True" and c = filledCache]
    by (simp add: g0 g1 fetchAndCache_invoke_def)
qed

lemma load_distinct:
  "distinct (map fst m) \<Longrightarrow>
     distinct (map fst (foldl (\<lambda>m (k, entry). if P entry then AList.update k entry m else m) m stored))"
proof (induction stored arbitrary: m)
  case Nil
  then show ?case by simp
next
  case (Cons p stored)
  obtain k entry where p: "p = (k, entry)"
    by (cases p)
  have "distinct (map fst (if P entry then AList.update k entry m else m))"
    using Cons.prems by (simp add: distinct_update)
  then show ?case
    unfolding p foldl_Cons prod.case by (rule Cons.IH)
qed

lemma wellFormed_persistToStorage: "wellFormed (persistToStorage c) = wellFormed c"
  by (simp add: wellFormed_def)

lemma wellFormed_newCache: "wellFormed (newCache now stored given)"
proof (cases stored)
  case None
  then show ?thesis
    by (simp add: wellFormed_def newCache_def loadFromStorage_def)
next
  case (Some entries)
  have "distinct (map fst (foldl (\<lambda>m (k, entry).
      if now - timestamp entry \<le> staleTTL (mergeConfig given) then AList.update k entry m else m)
      [] entries))"
    by (rule load_distinct) simp
  then show ?thesis
    using Some by (simp add: wellFormed_def newCache_def loadFromStorage_def)
qed

lemma wellFormed_get: "wellFormed c \<Longrightarrow> wellFormed (snd (get now k c))"
  by (auto simp: get_def wellFormed_def distinct_delete Let_def split: option.splits)

lemma wellFormed_set': "wellFormed c \<Longrightarrow> wellFormed (set' now k d tag c)"
  by (simp add: wellFormed_def distinct_update)

lemma wellFormed_clear: "wellFormed c \<Longrightarrow> wellFormed (clear k c)"
  by (simp add: wellFormed_def clear_def distinct_delete)

lemma wellFormed_clearAll: "wellFormed c \<Longrightarrow> wellFormed (clearAll c)"
  by (simp add: wellFormed_def clearAll_def)

lemma wellFormed_invoke: "wellFormed c \<Longrightarrow> wellFormed (fetchAndCache_invoke k c)"
  by (simp add: wellFormed_def fetchAndCache_invoke_def)

lemma wellFormed_refreshInBackground: "wellFormed c \<Longrightarrow> wellFormed (refreshInBackground k c)"
  by (auto simp: wellFormed_def refreshInBackground_def fetchAndCache_invoke_def Let_def)

lemma wellFormed_settled:
  "wellFormed c \<Longrightarrow> wellFormed (snd (fetchAndCache_settled now k outcome c))"
  by (cases outcome) (simp_all add: fetchAndCache_settled_def wellFormed_set')

lemma wellFormed_finallyDelete: "wellFormed c \<Longrightarrow> wellFormed (finallyDelete k c)"
  by (auto simp: wellFormed_def finallyDelete_def distinct_removeAll)

lemma wellFormed_refreshSettled:
  "wellFormed c \<Longrightarrow> wellFormed (snd (refreshSettled now k outcome c))"
  by (simp add: refreshSettled_def split_beta wellFormed_finallyDelete wellFormed_settled)

lemma wellFormed_begin:
  "wellFormed c \<Longrightarrow> wellFormed (snd (getWithRefresh_begin now k options c))"
  using wellFormed_get [of c now k]
  by (cases "get now k c")
    (auto simp: getWithRefresh_begin_def wellFormed_invoke wellFormed_refreshInBackground
      split: option.splits)

lemma wellFormed_resume:
  "wellFormed c \<Longrightarrow> wellFormed (snd (getWithRefresh_resume now k cached outcome c))"
  by (cases outcome)
    (auto simp: getWithRefresh_resume_def fetchAndCache_settled_def wellFormed_set'
      split: option.splits)

lemma reachable_wellFormed: "reachable c \<Longrightarrow> wellFormed c"
proof (induction rule: reachable.induct)
  case (constructed now stored given)
  show ?case by (rule wellFormed_newCache)
next
  case (got c now k)
  then show ?case by (simp add: wellFormed_get)
next
  case (was_set c now k d tag)
  then show ?case by (simp add: wellFormed_set')
next
  case (cleared c k)
  then show ?case by (simp add: wellFormed_clear)
next
  case (cleared_all c)
  then show ?case by (simp add: wellFormed_clearAll)
next
  case (began c now k options)
  then show ?case by (simp add: wellFormed_begin)
next
  case (resumed c now k cached outcome)
  then show ?case by (simp add: wellFormed_resume)
next
  case (triggered c k)
  then show ?case by (simp add: wellFormed_refreshInBackground)
next
  case (settled c k now outcome)
  then show ?case by (simp add: wellFormed_refreshSettled)
next
  case (written c k now outcome)
  then show ?case by (simp add: wellFormed_settled)
next
  case (finished c k)
  then show ?case by (simp add: wellFormed_finallyDelete)
qed

text \<open>
  Claim C8. \<open>refreshInBackground\<close> on a key that is marked as refreshing changes
  nothing: no fetcher is invoked. When the fetcher of a background refresh settles, with
  a value or with a failure, the key is no longer marked; the promise that was pending is
  fulfilled in both cases, so that a failure reaches nobody, and a failure leaves the
  cache map unchanged. A trigger after the settling marks the key again and invokes the
  fetcher once more. In every state that a cache can reach, no key has two background
  refreshes running, and the keys with a running background refresh are the keys that are
  marked.
\<close>

theorem background_refresh_deduplicated:
  fixes c :: "'a MarketplaceCache"
  shows "(isRefreshing k c \<longrightarrow> refreshInBackground k c = c) \<and>
    \<not> isRefreshing k (snd (refreshSettled now k outcome c)) \<and>
    fst (refreshSettled now k outcome c) = Inr () \<and>
    memoryCache (snd (refreshSettled now k (Inl reason) c)) = memoryCache c \<and>
    isRefreshing k (refreshInBackground k (snd (refreshSettled now k outcome c))) \<and>
    fetched (refreshInBackground k (snd (refreshSettled now k outcome c))) = fetched c @ [k] \<and>
    (reachable c \<longrightarrow>
       distinct (background c) \<and> distinct (pendingRefreshes c) \<and>
       set (background c) = set (pendingRefreshes c))"
proof (intro conjI impI)
  show "refreshInBackground k c = c" if "isRefreshing k c"
    using that by (simp add: isRefreshing_def refreshInBackground_def)
  show n: "\<not> isRefreshing k (snd (refreshSettled now k outcome c))"
    by (simp add: isRefreshing_def refreshSettled_def finallyDelete_def split_beta)
  show "fst (refreshSettled now k outcome c) = Inr ()"
    by (cases outcome)
      (simp_all add: refreshSettled_def fetchAndCache_settled_def thenCompleted_def
        catchFailed_def)
  show "memoryCache (snd (refreshSettled now k (Inl reason) c)) = memoryCache c"
    by (simp add: refreshSettled_def fetchAndCache_settled_def finallyDelete_def)
  have f: "fetched (snd (refreshSettled now k outcome c)) = fetched c"
    by (cases outcome)
      (simp_all add: refreshSettled_def fetchAndCache_settled_def finallyDelete_def)
  show "isRefreshing k (refreshInBackground k (snd (refreshSettled now k outcome c)))"
    by (simp add: isRefreshing_def refreshInBackground_def fetchAndCache_invoke_def Let_def)
  show "fetched (refreshInBackground k (snd (refreshSettled now k outcome c))) = fetched c @ [k]"
    using n f
    by (simp add: isRefreshing_def refreshInBackground_def fetchAndCache_invoke_def Let_def)
  assume "reachable c"
  then have w: "wellFormed c"
    by (rule reachable_wellFormed)
  show "distinct (background c)" "distinct (pendingRefreshes c)"
    "set (background c) = set (pendingRefreshes c)"
    using w by (simp_all add: wellFormed_def)
qed

lemma refreshingCache_reachable: "reachable refreshingCache"
  unfolding refreshingCache_def filledCache_def exampleCache_def
  by (intro reachable.triggered reachable.was_set reachable.constructed)

theorem background_refresh_deduplicated_witness:
  "isRefreshing ''k'' refreshingCache \<and>
   refreshInBackground ''k'' refreshingCache = refreshingCache \<and>
   fetched refreshingCache = [''k''] \<and>
   \<not> isRefreshing ''k'' (snd (refreshSettled 5000 ''k'' (Inl ''offline'') refreshingCache)) \<and>
   fst (refreshSettled 5000 ''k'' (Inl ''offline'') refreshingCache) = Inr () \<and>
   memoryCache (snd (refreshSettled 5000 ''k'' (Inl ''offline'') refreshingCache)) =
     memoryCache refreshingCache \<and>
   fetched (refreshInBackground ''k'' (snd (refreshSettled 5000 ''k'' (Inr ''w'') refreshingCache))) =
     [''k'', ''k''] \<and>
   background refreshingCache = [''k''] \<and>
   distinct (background refreshingCache) \<and>
   set (background refreshingCache) = set (pendingRefreshes refreshingCache)"
proof -
  have p: "isRefreshing ''k'' refreshingCache"
    and l: "fetched refreshingCache = [''k'']"
    and b: "background refreshingCache = [''k'']"
    by (simp_all add: refreshingCache_def filledCache_def exampleCache_eq isRefreshing_def
        refreshInBackground_def fetchAndCache_invoke_def Let_def)
  show ?thesis
    using background_refresh_deduplicated [where c = refreshingCache and k = "''k''"
        and now = 5000 and outcome = "Inl ''offline''" and reason = "''offline''"]
      background_refresh_deduplicated [where c = refreshingCache and k = "''k''"
        and now = 5000 and outcome = "Inr ''w''" and reason = "''offline''"]
      refreshingCache_reachable p l b
    by simp
qed

lemma persisted_eq:
  "distinct (map fst (r @ m)) \<Longrightarrow>
     foldl (\<lambda>record (k, entry). assignProperty record k entry) r m =
       r @ filter (\<lambda>p. fst p \<noteq> ''__proto__'') m"
proof (induction m arbitrary: r)
  case Nil
  show ?case by simp
next
  case (Cons p m)
  obtain k entry where p: "p = (k, entry)"
    by (cases p)
  show ?case
  proof (cases "k = ''__proto__''")
    case True
    have "distinct (map fst (r @ m))"
      using Cons.prems by (simp add: p)
    then have "foldl (\<lambda>record (k, entry). assignProperty record k entry) r m =
        r @ filter (\<lambda>p. fst p \<noteq> ''__proto__'') m"
      by (rule Cons.IH)
    then show ?thesis
      using True by (simp add: p assignProperty_def)
  next
    case False
    have absent: "k \<notin> fst ` set r"
      using Cons.prems by (auto simp: p)
    have u: "AList.update k entry r = r @ [(k, entry)]"
      using absent by (induction r) auto
    have "distinct (map fst ((r @ [(k, entry)]) @ m))"
      using Cons.prems by (simp add: p)
    then have "foldl (\<lambda>record (k, entry). assignProperty record k entry) (r @ [(k, entry)]) m =
        (r @ [(k, entry)]) @ filter (\<lambda>p. fst p \<noteq> ''__proto__'') m"
      by (rule Cons.IH)
    then show ?thesis
      using False by (simp add: p u assignProperty_def)
  qed
qed

lemma map_of_without_key:
  "map_of (filter (\<lambda>p. fst p \<noteq> x) m) k = (if k = x then None else map_of m k)"
  by (induction m) auto

lemma load_lookup:
  "distinct (map fst stored) \<Longrightarrow>
     map_of (foldl (\<lambda>m (k, entry). if P entry then AList.update k entry m else m) m stored) k =
       (case map_of stored k of
          Some entry \<Rightarrow> if P entry then Some entry else map_of m k
        | None \<Rightarrow> map_of m k)"
proof (induction stored arbitrary: m)
  case Nil
  show ?case by simp
next
  case (Cons p stored)
  obtain k1 entry1 where p: "p = (k1, entry1)"
    by (cases p)
  have absent: "map_of stored k1 = None"
    using Cons.prems by (simp add: p map_of_eq_None_iff)
  have d: "distinct (map fst stored)"
    using Cons.prems by simp
  have step: "map_of (foldl (\<lambda>m (k, entry). if P entry then AList.update k entry m else m)
      (if P entry1 then AList.update k1 entry1 m else m) stored) k =
       (case map_of stored k of
          Some entry \<Rightarrow> if P entry then Some entry
            else map_of (if P entry1 then AList.update k1 entry1 m else m) k
        | None \<Rightarrow> map_of (if P entry1 then AList.update k1 entry1 m else m) k)"
    using d by (rule Cons.IH)
  show ?case
  proof (cases "k = k1")
    case True
    then show ?thesis
      unfolding p foldl_Cons prod.case step
      by (simp add: absent update_conv')
  next
    case False
    then show ?thesis
      unfolding p foldl_Cons prod.case step
      by (simp add: update_conv' split: option.splits)
  qed
qed

text \<open>
  What a reload finds. Let a cache, whose map has no key twice, persist its map, and let a
  new cache with the same configuration be constructed at time \<open>now\<close> from what the
  memento holds, the properties of the stored object being enumerated in any order. For
  every key other than \<^verbatim>\<open>__proto__\<close> the new cache's map holds the entry of the old
  map if the age of that entry at \<open>now\<close> is at most \<open>staleTTL\<close>, and no entry
  otherwise, and a \<open>get\<close> of the key at \<open>now\<close> returns the same from both caches. For
  the key \<^verbatim>\<open>__proto__\<close> the new cache's map holds no entry.
\<close>

lemma persist_reload_lookup:
  fixes c :: "'a MarketplaceCache"
  assumes "distinct (map fst (memoryCache c))"
    and "config c = mergeConfig given"
    and "globalState (persistToStorage c) = Some persisted"
    and "distinct (map fst stored)"
    and "set stored = set persisted"
  shows "\<forall>k. map_of (memoryCache (newCache now (Some stored) given)) k =
           (if k = ''__proto__'' then None else readable now (config c) (memoryCache c) k) \<and>
         (k \<noteq> ''__proto__'' \<longrightarrow>
            fst (get now k (newCache now (Some stored) given)) = fst (get now k c))"
proof
  fix k
  have persisted: "persisted = filter (\<lambda>p. fst p \<noteq> ''__proto__'') (memoryCache c)"
    using assms(1,3) persisted_eq [of "[]" "memoryCache c"]
    by (simp add: persistToStorage_def)
  have "distinct (map fst persisted)"
    unfolding persisted using assms(1) by (rule distinct_map_filter)
  then have "map_of stored = map_of persisted"
    using assms(4,5) by (simp add: map_of_inject_set)
  then have same: "map_of stored k = (if k = ''__proto__'' then None else map_of (memoryCache c) k)"
    by (simp add: persisted map_of_without_key)
  have cfg: "config (newCache now (Some stored) given) = config c"
    by (simp add: newCache_def loadFromStorage_def assms(2))
  have m: "map_of (memoryCache (newCache now (Some stored) given)) k =
      (if k = ''__proto__'' then None else readable now (config c) (memoryCache c) k)"
    using load_lookup [OF assms(4), of "\<lambda>entry. now - timestamp entry \<le> staleTTL (config c)" "[]" k]
    by (simp add: newCache_def loadFromStorage_def assms(2) [symmetric] readable_def same
        split: option.splits)
  have g: "k \<noteq> ''__proto__'' \<longrightarrow>
      fst (get now k (newCache now (Some stored) given)) = fst (get now k c)"
    by (simp add: get_def m cfg readable_def Let_def split: option.splits)
  show "map_of (memoryCache (newCache now (Some stored) given)) k =
           (if k = ''__proto__'' then None else readable now (config c) (memoryCache c) k) \<and>
         (k \<noteq> ''__proto__'' \<longrightarrow>
            fst (get now k (newCache now (Some stored) given)) = fst (get now k c))"
    using m g by (rule conjI)
qed

lemma persist_reload_lookup_example:
  "map_of (memoryCache (newCache 4000000 (Some agedStored) None)) ''old'' = None \<and>
   map_of (memoryCache (newCache 4000000 (Some agedStored) None)) ''10'' =
     Some \<lparr>data = ''new'', timestamp = 3900000, etag = Some ''tag''\<rparr> \<and>
   fst (get 4000000 ''old'' (newCache 4000000 (Some agedStored) None)) = fst (get 4000000 ''old'' agedCache) \<and>
   fst (get 4000000 ''10'' (newCache 4000000 (Some agedStored) None)) = fst (get 4000000 ''10'' agedCache)"
proof -
  have m: "memoryCache agedCache =
     [(''old'', \<lparr>data = ''v'', timestamp = 1000, etag = None\<rparr>),
      (''10'', \<lparr>data = ''new'', timestamp = 3900000, etag = Some ''tag''\<rparr>)]"
    by (simp add: agedCache_def exampleCache_eq)
  have d: "distinct (map fst (memoryCache agedCache))"
    by (simp add: m)
  have c: "config agedCache = mergeConfig None"
    by (simp add: agedCache_def exampleCache_def newCache_def loadFromStorage_def)
  have s: "staleTTL (config agedCache) = 3600000"
    by (simp add: agedCache_def exampleCache_eq)
  have p: "globalState (persistToStorage agedCache) = Some (memoryCache agedCache)"
    by (simp add: persistToStorage_def assignProperty_def m)
  have d': "distinct (map fst agedStored)"
    by (simp add: agedStored_def)
  have e: "set agedStored = set (memoryCache agedCache)"
    by (auto simp: agedStored_def m)
  note th = persist_reload_lookup [OF d c p d' e, of 4000000]
  have old: "readable 4000000 (config agedCache) (memoryCache agedCache) ''old'' = None"
    by (simp add: readable_def m s)
  have new: "readable 4000000 (config agedCache) (memoryCache agedCache) ''10'' =
      Some \<lparr>data = ''new'', timestamp = 3900000, etag = Some ''tag''\<rparr>"
    by (simp add: readable_def m s)
  show ?thesis
    using th [rule_format, of "''old''"] th [rule_format, of "''10''"]
    by (simp add: old new)
qed

text \<open>
  Claim C9 asks that persisting the map of a cache and reloading it, with no time
  passing, gives the same readable state, entries older than \<open>staleTTL\<close> apart. The
  code builds the stored object with one assignment \<^verbatim>\<open>data[key] = entry\<close> for each
  entry, and the assignment to the key \<^verbatim>\<open>__proto__\<close> stores no property. In the cache
  that holds one entry, set at time 1000 under the key \<^verbatim>\<open>__proto__\<close>, a \<open>get\<close> of that
  key at time 2000 returns the fresh data; the object handed to the memento has no
  property; and in the cache constructed from it at time 2000 the same \<open>get\<close> returns
  undefined, although the entry is far younger than \<open>staleTTL\<close>.
\<close>

theorem persist_reload_loses_proto_key:
  "fst (get 2000 ''__proto__'' protoCache) = Some \<lparr>data = ''v'', isFresh = True\<rparr> \<and>
   globalState (persistToStorage protoCache) = Some [] \<and>
   fst (get 2000 ''__proto__'' (newCache 2000 (globalState (persistToStorage protoCache)) None)) =
     None"
proof -
  have m: "memoryCache protoCache =
     [(''__proto__'', \<lparr>data = ''v'', timestamp = 1000, etag = None\<rparr>)]"
    by (simp add: protoCache_def exampleCache_eq)
  have cfg: "config protoCache = \<lparr>freshTTL = 300000, staleTTL = 3600000\<rparr>"
    by (simp add: protoCache_def exampleCache_eq)
  have g: "fst (get 2000 ''__proto__'' protoCache) = Some \<lparr>data = ''v'', isFresh = True\<rparr>"
    by (simp add: get_def m cfg)
  have p: "globalState (persistToStorage protoCache) = Some []"
    by (simp add: persistToStorage_def assignProperty_def m)
  have "fst (get 2000 ''__proto__'' (newCache 2000 (Some []) None)) = None"
    by (simp add: get_def newCache_def loadFromStorage_def)
  then show ?thesis
    using g p by simp
qed

end
